theory Spec2Isabelle
  imports Complex_Main "HOL-Library.Multiset"
begin

text \<open>
  A model of the widget bridge of the chat example: the widget registry and the
  \<open>WidgetRenderer\<close> component of the React SDK (\<open>sdks/react\<close>), and the handlers of
  the chat surface (\<open>example/chat/app/routes/home.tsx\<close>) that keep the message log and
  the open-widget pointer. Component state is passed explicitly; what the awaited
  network calls and the widget hooks yield is an input of the model; \<open>JSON.parse\<close>,
  \<open>String.prototype.trim\<close> and the string conversion of property keys are parameters.
\<close>

section \<open>JavaScript values\<close>

text \<open>
  The chat surface inspects the result of \<open>JSON.parse\<close> dynamically (truthiness tests,
  \<open>typeof uri === "string"\<close>), so decoded values are modelled as an untyped value
  datatype. \<open>JUndefined\<close> is the value of an absent property.
\<close>

datatype jsval =
    JUndefined
  | JNull
  | JBool bool
  | JNum rat
  | JStr string
  | JArr "jsval list"
  | JObj "(string \<times> jsval) list"

text \<open>JavaScript truthiness (\<open>if (v)\<close>, \<open>v && ...\<close>).\<close>

fun truthy :: "jsval \<Rightarrow> bool" where
  "truthy JUndefined = False"
| "truthy JNull = False"
| "truthy (JBool b) = b"
| "truthy (JNum n) = (n \<noteq> 0)"
| "truthy (JStr s) = (s \<noteq> [])"
| "truthy (JArr xs) = True"
| "truthy (JObj kvs) = True"

text \<open>
  Property read \<open>v.k\<close>. Reading a property of \<open>null\<close> or \<open>undefined\<close> throws a
  TypeError (\<open>None\<close>); on every other value a property that is not an own property
  reads as \<open>undefined\<close>. The model only reads the names \<open>uri\<close>, \<open>parameters\<close> and
  \<open>text\<close>, which no built-in prototype defines.
\<close>

fun getProp :: "jsval \<Rightarrow> string \<Rightarrow> jsval option" where
  "getProp JUndefined k = None"
| "getProp JNull k = None"
| "getProp (JObj kvs) k = Some (case map_of kvs k of Some v \<Rightarrow> v | None \<Rightarrow> JUndefined)"
| "getProp v k = Some JUndefined"

section \<open>The widget registry (registry.ts)\<close>

datatype visualization_mode = Small | Both | Indipendent

text \<open>The outcome of calling a widget hook: it throws, or returns a value.\<close>

datatype call_result = Throws | Returns jsval

text \<open>
  A \<open>WidgetComponent\<close>: its static members. \<open>has_initWidget\<close> says whether the optional
  \<open>initWidget\<close> hook is defined; \<open>getWidgetContext\<close> is \<open>None\<close> when that optional hook
  is absent and otherwise what a call of it yields.
\<close>

record widget =
  widgetName :: string
  description :: string
  visualization :: visualization_mode
  has_initWidget :: bool
  getWidgetContext :: "call_result option"

text \<open>
  \<open>const registry: Record<WidgetId, WidgetComponent> = {}\<close>: an ordinary object. The
  map holds its own properties; its prototype is \<open>Object.prototype\<close>.
\<close>

type_synonym registry = "string \<rightharpoonup> widget"

definition registerWidgets :: "registry \<Rightarrow> registry \<Rightarrow> registry" where
  "registerWidgets entries registry = registry ++ entries"

text \<open>The property names of \<open>Object.prototype\<close>, which every ordinary object inherits.\<close>

definition objectPrototypeKeys :: "string list" where
  "objectPrototypeKeys =
     [''constructor'', ''hasOwnProperty'', ''isPrototypeOf'', ''propertyIsEnumerable'',
      ''toLocaleString'', ''toString'', ''valueOf'', ''__proto__'',
      ''__defineGetter__'', ''__defineSetter__'', ''__lookupGetter__'', ''__lookupSetter__'']"

text \<open>
  What \<open>registry[id]\<close> evaluates to: \<open>undefined\<close>, a registered component, or a member
  inherited from \<open>Object.prototype\<close> (a truthy value that is no widget and has none of
  the widget hooks).
\<close>

datatype resolved = Undefined | Component widget | Inherited string

definition getWidget :: "registry \<Rightarrow> string \<Rightarrow> resolved" where
  "getWidget registry wid =
     (case registry wid of
        Some w \<Rightarrow> Component w
      | None \<Rightarrow> if wid \<in> set objectPrototypeKeys then Inherited wid else Undefined)"

section \<open>The renderer (WidgetRenderer)\<close>

text \<open>\<open>type WParams = { name: string; value?: any }\<close>; an absent value is \<open>JUndefined\<close>.\<close>

record wparams =
  name :: string
  pvalue :: jsval

text \<open>
  \<open>Object.fromEntries\<close>: the entries are defined on a fresh object one after the other,
  a later entry overwriting an earlier one of the same key.
\<close>

definition fromEntries :: "(string \<times> 'v) list \<Rightarrow> (string \<rightharpoonup> 'v)" where
  "fromEntries es = fold (\<lambda>(k, v) obj. obj(k \<mapsto> v)) es Map.empty"

text \<open>
  \<open>Array.isArray(parameters) ? Object.fromEntries(parameters.map(p => [p.name, p.value]))
  : undefined\<close>; \<open>None\<close> is \<open>undefined\<close>.
\<close>

definition normalize_params :: "wparams list \<Rightarrow> (string \<rightharpoonup> jsval)" where
  "normalize_params ps = fromEntries (map (\<lambda>p. (name p, pvalue p)) ps)"

definition paramObj :: "wparams list option \<Rightarrow> (string \<rightharpoonup> jsval) option" where
  "paramObj parameters =
     (case parameters of
        Some ps \<Rightarrow> Some (normalize_params ps)
      | None \<Rightarrow> None)"

text \<open>
  One mounted \<open>WidgetRenderer\<close>: the \<open>useState\<close> cell \<open>params\<close>, the dependency list
  \<open>[uri]\<close> of the effect as of the last render, and the calls of \<open>initWidget\<close> made so
  far (identifier and the \<open>parameters\<close> argument). The hooks behave as React defines
  them: \<open>useState\<close> reads its argument on the first render only, and an effect with
  dependencies \<open>[uri]\<close> runs after the first render and after every later render in
  which \<open>uri\<close> differs from the previous render's.
\<close>

record renderer =
  params :: "(string \<rightharpoonup> jsval) option"
  dep_uri :: string
  initCalls :: "(string \<times> (string \<rightharpoonup> jsval) option) list"

text \<open>The effect body \<open>Widget?.initWidget?.(params, setParams)\<close>.\<close>

definition runEffect :: "registry \<Rightarrow> string \<Rightarrow> renderer \<Rightarrow> renderer" where
  "runEffect registry uri r =
     (case getWidget registry uri of
        Component w \<Rightarrow>
          if has_initWidget w then r\<lparr>initCalls := initCalls r @ [(uri, params r)]\<rparr> else r
      | _ \<Rightarrow> r)"

text \<open>
  First render: \<open>useState(paramObj)\<close> takes its initial value and the effect runs.
\<close>

definition mount :: "registry \<Rightarrow> string \<Rightarrow> wparams list option \<Rightarrow> renderer" where
  "mount registry uri parameters =
     runEffect registry uri \<lparr>params = paramObj parameters, dep_uri = uri, initCalls = []\<rparr>"

text \<open>
  A later render with props \<open>uri\<close> and \<open>parameters\<close>: \<open>useState\<close> keeps its cell (the
  recomputed \<open>paramObj\<close> is ignored) and the effect runs only if \<open>uri\<close> differs from
  the previous render's.
\<close>

definition rerender :: "registry \<Rightarrow> string \<Rightarrow> wparams list option \<Rightarrow> renderer \<Rightarrow> renderer" where
  "rerender registry uri parameters r =
     (if uri \<noteq> dep_uri r then runEffect registry uri (r\<lparr>dep_uri := uri\<rparr>) else r)"

text \<open>
  \<open>setParams(newParams)\<close>, the callback handed to \<open>initWidget\<close>: the cell is replaced and
  the component renders again with the props it has.
\<close>

definition setParams :: "registry \<Rightarrow> (string \<rightharpoonup> jsval) option \<Rightarrow> renderer \<Rightarrow> renderer" where
  "setParams registry newParams r = rerender registry (dep_uri r) None (r\<lparr>params := newParams\<rparr>)"

text \<open>
  What a render returns: the fallback \<open><div>Unknown widget: {uri}</div>\<close> when
  \<open>!Widget\<close>, else \<open><Widget parameters={params} />\<close>.
\<close>

datatype rendered = UnknownWidget string | WidgetElement resolved "(string \<rightharpoonup> jsval) option"

definition render :: "registry \<Rightarrow> string \<Rightarrow> renderer \<Rightarrow> rendered" where
  "render registry uri r =
     (case getWidget registry uri of
        Undefined \<Rightarrow> UnknownWidget uri
      | W \<Rightarrow> WidgetElement W (params r))"

datatype renderer_event =
    Props string "wparams list option"
  | SetParams "(string \<rightharpoonup> jsval) option"

fun renderer_step :: "registry \<Rightarrow> renderer \<Rightarrow> renderer_event \<Rightarrow> renderer" where
  "renderer_step registry r (Props uri parameters) = rerender registry uri parameters r"
| "renderer_step registry r (SetParams newParams) = setParams registry newParams r"

definition renderer_run :: "registry \<Rightarrow> renderer \<Rightarrow> renderer_event list \<Rightarrow> renderer" where
  "renderer_run registry r evs = foldl (renderer_step registry) r evs"

text \<open>The identifiers of the renders in an event sequence, in order.\<close>

fun shown_uris :: "renderer_event list \<Rightarrow> string list" where
  "shown_uris [] = []"
| "shown_uris (Props uri parameters # evs) = uri # shown_uris evs"
| "shown_uris (SetParams newParams # evs) = shown_uris evs"

definition has_init :: "registry \<Rightarrow> string \<Rightarrow> bool" where
  "has_init registry uri =
     (case getWidget registry uri of Component w \<Rightarrow> has_initWidget w | _ \<Rightarrow> False)"

section \<open>The chat surface (routes/home.tsx)\<close>

datatype ChatRole = User | Assistant | Tool | Error | Widget

text \<open>
  The \<open>content\<close> of a message, a React node: a plain value (a string, or whatever
  \<open>parsed.text\<close> is), the element \<open><WidgetRenderer uri={..} parameters={..} />\<close> with
  its two props, or the tool-output element with the tool name and the content shown.
\<close>

datatype node =
    Text jsval
  | WidgetRendererEl jsval jsval
  | ToolOutputEl string jsval

record ChatMessage =
  role :: ChatRole
  content :: node

text \<open>
  An entry of the array \<open>/chat\<close> answers with. The fields are strings as the backend
  sends them; an absent field reads as the empty string, since the code only tests the
  fields for truthiness.
\<close>

record reply_entry =
  msg_role :: string
  msg_tool :: string
  msg_result :: string
  msg_content :: string

text \<open>The component state of \<open>Home\<close> that the handlers read and write.\<close>

record home_state =
  messages :: "ChatMessage list"
  input :: string
  loading :: bool
  sessionId :: string
  openWidgetUri :: jsval

definition initial_state :: home_state where
  "initial_state =
     \<lparr>messages = [], input = [], loading = False, sessionId = ''default'',
      openWidgetUri = JNull\<rparr>"

definition widgetMessage :: "jsval \<Rightarrow> jsval \<Rightarrow> ChatMessage" where
  "widgetMessage uri parameters = \<lparr>role = Widget, content = WidgetRendererEl uri parameters\<rparr>"

definition assistantMessage :: "jsval \<Rightarrow> ChatMessage" where
  "assistantMessage v = \<lparr>role = Assistant, content = Text v\<rparr>"

subsection \<open>handleAddWidget\<close>

definition handleAddWidget :: "registry \<Rightarrow> string \<Rightarrow> home_state \<Rightarrow> home_state" where
  "handleAddWidget registry uri st =
     (case getWidget registry uri of
        Undefined \<Rightarrow> st
      | _ \<Rightarrow> st\<lparr>messages := messages st @ [widgetMessage (JStr uri) JUndefined],
               openWidgetUri := JStr uri\<rparr>)"

subsection \<open>handleRemoveWidget\<close>

text \<open>\<open>Array.prototype.findIndex\<close>; \<open>None\<close> is the result \<open>-1\<close>.\<close>

fun findIndex :: "('a \<Rightarrow> bool) \<Rightarrow> 'a list \<Rightarrow> nat option" where
  "findIndex P [] = None"
| "findIndex P (x # xs) = (if P x then Some 0 else map_option Suc (findIndex P xs))"

fun isValidElement :: "node \<Rightarrow> bool" where
  "isValidElement (Text v) = False"
| "isValidElement (WidgetRendererEl uri parameters) = True"
| "isValidElement (ToolOutputEl toolName parsedContent) = True"

text \<open>\<open>element.props.uri\<close>: only the \<open>WidgetRenderer\<close> element has that prop.\<close>

fun props_uri :: "node \<Rightarrow> jsval" where
  "props_uri (WidgetRendererEl uri parameters) = uri"
| "props_uri (ToolOutputEl toolName parsedContent) = JUndefined"
| "props_uri (Text v) = JUndefined"

fun isString :: "jsval \<Rightarrow> bool" where
  "isString (JStr s) = True"
| "isString v = False"

definition isWidget :: "ChatMessage \<Rightarrow> bool" where
  "isWidget m = (role m = Widget)"

definition handleRemoveWidget :: "home_state \<Rightarrow> home_state" where
  "handleRemoveWidget st =
     (let prev = messages st in
      case findIndex isWidget (rev prev) of
        None \<Rightarrow> st
      | Some lastWidgetIndex \<Rightarrow>
          let actualIndex = length prev - 1 - lastWidgetIndex;
              newMessages = take actualIndex prev @ drop (actualIndex + 1) prev;
              prevWidget = find isWidget (rev newMessages)
          in st\<lparr>messages := newMessages,
                 openWidgetUri :=
                   (case prevWidget of
                      Some m \<Rightarrow>
                        if isValidElement (content m)
                        then (let uri = props_uri (content m)
                              in if isString uri then uri else JNull)
                        else JNull
                    | None \<Rightarrow> JNull)\<rparr>)"

subsection \<open>sendMessage: applying the reply\<close>

text \<open>
  How a \<open>try\<close> block ends: an exception was thrown, the enclosing function returned a
  value from inside the block, or the block ran to its end.
\<close>

datatype 'a completion = Thrown | Returned 'a | Completed

text \<open>
  The \<open>try\<close> block of the assistant branch. \<open>parse\<close> stands for \<open>JSON.parse\<close>
  (\<open>None\<close> when it throws). A returned pair holds the messages the callback returns
  and the value last given to \<open>setOpenWidgetUri\<close>.
\<close>

definition assistant_try ::
  "(string \<Rightarrow> jsval option) \<Rightarrow> string \<Rightarrow> (ChatMessage list \<times> jsval) completion" where
  "assistant_try parse c =
     (case parse c of
        None \<Rightarrow> Thrown
      | Some parsed \<Rightarrow>
          (case getProp parsed ''uri'' of
             None \<Rightarrow> Thrown
           | Some uri \<Rightarrow>
               if truthy uri then
                 (case getProp parsed ''parameters'' of
                    None \<Rightarrow> Thrown
                  | Some parameters \<Rightarrow>
                      (case getProp parsed ''text'' of
                         None \<Rightarrow> Thrown
                       | Some txt \<Rightarrow>
                           Returned
                             (widgetMessage uri parameters #
                                (if truthy txt then [assistantMessage txt] else []),
                              uri)))
               else
                 (case getProp parsed ''text'' of
                    None \<Rightarrow> Thrown
                  | Some txt \<Rightarrow>
                      if truthy txt then Returned ([assistantMessage txt], JNull)
                      else Completed)))"

text \<open>
  The callback of \<open>data.flatMap\<close>, with the open-widget pointer threaded through: it
  returns the messages for one entry and the pointer after its \<open>setOpenWidgetUri\<close>
  calls.
\<close>

definition entry_messages ::
  "(string \<Rightarrow> jsval option) \<Rightarrow> reply_entry \<Rightarrow> jsval \<Rightarrow> ChatMessage list \<times> jsval" where
  "entry_messages parse msg ptr =
     (if msg_role msg = ''tool'' \<and> msg_result msg \<noteq> [] then
        ([\<lparr>role = Tool,
           content = ToolOutputEl (msg_tool msg)
             (case parse (msg_result msg) of
                Some v \<Rightarrow> v
              | None \<Rightarrow> JStr (msg_result msg))\<rparr>], ptr)
      else if msg_role msg = ''assistant'' \<and> msg_content msg \<noteq> [] then
        (case assistant_try parse (msg_content msg) of
           Returned r \<Rightarrow> r
         | _ \<Rightarrow> ([assistantMessage (JStr (msg_content msg))], JNull))
      else ([], ptr))"

fun flatMap_entries ::
  "(string \<Rightarrow> jsval option) \<Rightarrow> reply_entry list \<Rightarrow> jsval \<Rightarrow> ChatMessage list \<times> jsval" where
  "flatMap_entries parse [] ptr = ([], ptr)"
| "flatMap_entries parse (msg # rest) ptr =
     (case entry_messages parse msg ptr of
        (ms, ptr') \<Rightarrow>
          (case flatMap_entries parse rest ptr' of
             (ms', ptr'') \<Rightarrow> (ms @ ms', ptr'')))"

text \<open>The body \<open>response.json()\<close> resolves to: an array of entries, or something else.\<close>

datatype reply_data = NotArray | EntryArray "reply_entry list"

text \<open>The block \<open>if (Array.isArray(data)) { ... }\<close>.\<close>

definition applyData ::
  "(string \<Rightarrow> jsval option) \<Rightarrow> reply_data \<Rightarrow> home_state \<Rightarrow> home_state" where
  "applyData parse data st =
     (case data of
        NotArray \<Rightarrow> st
      | EntryArray entries \<Rightarrow>
          (case flatMap_entries parse entries (openWidgetUri st) of
             (newMsgs, ptr) \<Rightarrow>
               st\<lparr>openWidgetUri := ptr,
                  messages := (if newMsgs \<noteq> [] then messages st @ newMsgs else messages st)\<rparr>))"

subsection \<open>sendMessage: the turn\<close>

datatype request = ContextInjection jsval string | ChatRequest string string

text \<open>
  What the awaited calls of one turn yield: the context-injection \<open>fetch\<close> rejects or
  resolves (its response is not read); the chat \<open>fetch\<close> rejects, or resolves to a
  response with its \<open>ok\<close> flag and the result of \<open>json()\<close> (\<open>None\<close> when that rejects).
\<close>

datatype fetch_result = Rejected | Resolved

datatype chat_result = ChatRejected | ChatResponse bool "reply_data option"

record turn_env =
  inject_fetch :: fetch_result
  chat_fetch :: chat_result

text \<open>\<open>Object.keys(context).length\<close> for a truthy \<open>context\<close>.\<close>

fun keysLength :: "jsval \<Rightarrow> nat" where
  "keysLength (JStr s) = length s"
| "keysLength (JArr xs) = length xs"
| "keysLength (JObj kvs) = length kvs"
| "keysLength v = 0"

text \<open>
  The key \<open>registry[id]\<close> reads for a value \<open>id\<close>: a string is its own key; \<open>toStr\<close>
  stands for JavaScript's string conversion of any other value.
\<close>

definition propertyKey :: "(jsval \<Rightarrow> string) \<Rightarrow> jsval \<Rightarrow> string" where
  "propertyKey toStr v = (case v of JStr s \<Rightarrow> s | _ \<Rightarrow> toStr v)"

text \<open>\<open>widget?.getWidgetContext?.()\<close>.\<close>

definition callGetWidgetContext :: "resolved \<Rightarrow> call_result" where
  "callGetWidgetContext widget =
     (case widget of
        Component w \<Rightarrow> (case getWidgetContext w of None \<Rightarrow> Returns JUndefined | Some r \<Rightarrow> r)
      | _ \<Rightarrow> Returns JUndefined)"

text \<open>
  The inner \<open>try\<close> block of \<open>sendMessage\<close> (entered when \<open>openWidgetUri\<close> is truthy):
  how it ends and the requests it sent.
\<close>

definition injection_try ::
  "(jsval \<Rightarrow> string) \<Rightarrow> registry \<Rightarrow> turn_env \<Rightarrow> home_state \<Rightarrow> unit completion \<times> request list" where
  "injection_try toStr registry env st =
     (case callGetWidgetContext (getWidget registry (propertyKey toStr (openWidgetUri st))) of
        Throws \<Rightarrow> (Thrown, [])
      | Returns context \<Rightarrow>
          if truthy context \<and> keysLength context > 0 then
            (case inject_fetch env of
               Rejected \<Rightarrow> (Thrown, [ContextInjection context (sessionId st)])
             | Resolved \<Rightarrow> (Completed, [ContextInjection context (sessionId st)]))
          else (Completed, []))"

definition errorMessage :: ChatMessage where
  "errorMessage =
     \<lparr>role = Error, content = Text (JStr ''Failed to get response. Please try again.'')\<rparr>"

text \<open>
  The outer \<open>try\<close> block after the injection: the chat call and the reply. Nothing
  before a throw has changed the state.
\<close>

definition chat_try ::
  "(string \<Rightarrow> jsval option) \<Rightarrow> turn_env \<Rightarrow> home_state \<Rightarrow> home_state completion" where
  "chat_try parse env st =
     (case chat_fetch env of
        ChatRejected \<Rightarrow> Thrown
      | ChatResponse ok body \<Rightarrow>
          if \<not> ok then Thrown
          else (case body of
                  None \<Rightarrow> Thrown
                | Some data \<Rightarrow> Returned (applyData parse data st)))"

text \<open>
  \<open>sendMessage\<close>, run to its end with the outcomes \<open>env\<close> of its awaited calls: the new
  state and the requests sent, in order. \<open>trim\<close> stands for \<open>String.prototype.trim\<close>.
\<close>

definition sendMessage ::
  "(string \<Rightarrow> string) \<Rightarrow> (jsval \<Rightarrow> string) \<Rightarrow> (string \<Rightarrow> jsval option) \<Rightarrow> registry \<Rightarrow>
     turn_env \<Rightarrow> home_state \<Rightarrow> home_state \<times> request list" where
  "sendMessage trim toStr parse registry env st =
     (if trim (input st) = [] \<or> loading st then (st, [])
      else
        let userMessage = trim (input st);
            st1 = st\<lparr>input := [],
                     messages := messages st @ [\<lparr>role = User, content = Text (JStr userMessage)\<rparr>],
                     loading := True\<rparr>;
            injected =
              (if truthy (openWidgetUri st)
               then (case injection_try toStr registry env st of
                       (Thrown, reqs) \<Rightarrow> reqs
                     | (_, reqs) \<Rightarrow> reqs)
               else []);
            st2 =
              (case chat_try parse env st1 of
                 Returned st' \<Rightarrow> st'
               | _ \<Rightarrow> st1\<lparr>messages := messages st1 @ [errorMessage]\<rparr>)
        in (st2\<lparr>loading := False\<rparr>, injected @ [ChatRequest userMessage (sessionId st)]))"

text \<open>An ASCII instance of \<open>trim\<close>, used to run \<open>sendMessage\<close> on concrete inputs.\<close>

definition isSpace :: "char \<Rightarrow> bool" where
  "isSpace c = (c \<in> set [CHR '' '', CHR 0x09, CHR 0x0A, CHR 0x0B, CHR 0x0C, CHR 0x0D])"

definition trimASCII :: "string \<Rightarrow> string" where
  "trimASCII s = rev (dropWhile isSpace (rev (dropWhile isSpace s)))"

subsection \<open>Sequences of operations on the log\<close>

datatype log_op = AddWidget string | ApplyReply "reply_entry list" | RemoveWidget

fun log_step ::
  "(string \<Rightarrow> jsval option) \<Rightarrow> registry \<Rightarrow> home_state \<Rightarrow> log_op \<Rightarrow> home_state" where
  "log_step parse registry st (AddWidget uri) = handleAddWidget registry uri st"
| "log_step parse registry st (ApplyReply entries) = applyData parse (EntryArray entries) st"
| "log_step parse registry st RemoveWidget = handleRemoveWidget st"

definition log_run ::
  "(string \<Rightarrow> jsval option) \<Rightarrow> registry \<Rightarrow> home_state \<Rightarrow> log_op list \<Rightarrow> home_state" where
  "log_run parse registry st ops = foldl (log_step parse registry) st ops"

text \<open>
  An assistant entry opens a widget when its content decodes to a value whose \<open>uri\<close> is
  a non-empty string, a widget identifier.
\<close>

definition opens_widget :: "(string \<Rightarrow> jsval option) \<Rightarrow> reply_entry \<Rightarrow> bool" where
  "opens_widget parse msg =
     (case parse (msg_content msg) of
        None \<Rightarrow> False
      | Some parsed \<Rightarrow>
          (case getProp parsed ''uri'' of
             Some (JStr u) \<Rightarrow> u \<noteq> []
           | _ \<Rightarrow> False))"

definition isAssistantEntry :: "reply_entry \<Rightarrow> bool" where
  "isAssistantEntry msg = (msg_role msg = ''assistant'' \<and> msg_content msg \<noteq> [])"

text \<open>
  The operations of the open/remove claim: opening from the picker, removing, and a
  reply each of whose assistant entries opens a widget (tool entries may accompany
  them).
\<close>

fun opens_or_removes :: "(string \<Rightarrow> jsval option) \<Rightarrow> log_op \<Rightarrow> bool" where
  "opens_or_removes parse (AddWidget uri) = True"
| "opens_or_removes parse RemoveWidget = True"
| "opens_or_removes parse (ApplyReply entries) =
     list_all (\<lambda>msg. \<not> isAssistantEntry msg \<or> opens_widget parse msg) entries"

text \<open>
  The identifier of the most recent widget message of a log, \<open>JNull\<close> when the log has
  no widget message.
\<close>

definition most_recent_widget :: "ChatMessage list \<Rightarrow> jsval" where
  "most_recent_widget msgs =
     (case filter isWidget msgs of
        [] \<Rightarrow> JNull
      | w # ws \<Rightarrow> props_uri (content (last (w # ws))))"

definition pointer_ok :: "home_state \<Rightarrow> bool" where
  "pointer_ok st = (openWidgetUri st = most_recent_widget (messages st))"

text \<open>Every widget message holds a \<open>WidgetRenderer\<close> element whose \<open>uri\<close> is a string.\<close>

definition widgets_wf :: "ChatMessage list \<Rightarrow> bool" where
  "widgets_wf msgs =
     list_all (\<lambda>m. isWidget m \<longrightarrow> isValidElement (content m) \<and> isString (props_uri (content m))) msgs"

text \<open>
  How the pointer \<open>p\<close> after a reply relates to the pointer \<open>ptr\<close> before it and to
  the messages \<open>ms\<close> of the reply: it names the last widget message of the reply, and
  is unchanged when the reply has none.
\<close>

definition tracks :: "jsval \<Rightarrow> ChatMessage list \<Rightarrow> jsval \<Rightarrow> bool" where
  "tracks ptr ms p =
     (widgets_wf ms \<and> p = (if filter isWidget ms = [] then ptr else most_recent_widget ms))"

subsection \<open>Reading a decoded reply and a finished turn\<close>

text \<open>
  A field of a decoded reply as the claims speak of it: the property when the decoded
  value has it, \<open>undefined\<close> otherwise (also for \<open>null\<close>, which has no properties).
\<close>

definition decoded_field :: "jsval \<Rightarrow> string \<Rightarrow> jsval" where
  "decoded_field parsed k = (case getProp parsed k of Some v \<Rightarrow> v | None \<Rightarrow> JUndefined)"

definition isError :: "ChatMessage \<Rightarrow> bool" where
  "isError m = (role m = Error)"

text \<open>The chat call succeeded: it resolved, with \<open>ok\<close> set and a body that decoded.\<close>

fun chat_ok :: "chat_result \<Rightarrow> bool" where
  "chat_ok (ChatResponse ok (Some data)) = ok"
| "chat_ok r = False"

section \<open>Sample data\<close>

text \<open>
  A small registry and parameter lists on which the definitions are run: widget A has
  both hooks, widget B has none.
\<close>

definition widgetA :: widget where
  "widgetA =
     \<lparr>widgetName = ''A'', description = ''first'', visualization = Both,
      has_initWidget = True,
      getWidgetContext = Some (Returns (JObj [(''day'', JNum 3)]))\<rparr>"

definition widgetB :: widget where
  "widgetB =
     \<lparr>widgetName = ''B'', description = ''second'', visualization = Small,
      has_initWidget = False, getWidgetContext = None\<rparr>"

definition widgetC :: widget where
  "widgetC =
     \<lparr>widgetName = ''C'', description = ''third'', visualization = Small,
      has_initWidget = False, getWidgetContext = Some Throws\<rparr>"

definition sample_registry :: registry where
  "sample_registry =
     registerWidgets
       [''wip://a'' \<mapsto> widgetA, ''wip://b'' \<mapsto> widgetB, ''wip://c'' \<mapsto> widgetC] Map.empty"

text \<open>
  Contents of assistant entries, and what \<open>JSON.parse\<close> makes of them. The table
  \<open>sample_parse\<close> is \<open>JSON.parse\<close> on these contents; it is only applied to them, to
  \<open>plain_text\<close>, to the tool result \<open>in stock\<close> and to the empty string, none of
  which is JSON text.
\<close>

definition reply_b_ok :: string where
  \<open>reply_b_ok = ''{"uri":"wip://b","parameters":[],"text":"ok"}''\<close>

definition reply_hello :: string where
  \<open>reply_hello = ''{"uri":"","parameters":[],"text":"hello"}''\<close>

definition reply_empty :: string where
  \<open>reply_empty = ''{"uri":"","parameters":[],"text":""}''\<close>

definition reply_unknown :: string where
  \<open>reply_unknown = ''{"uri":"wip://nope","parameters":[],"text":""}''\<close>

definition plain_text :: string where
  "plain_text = ''Here is your calendar.''"

definition sample_parse :: "string \<Rightarrow> jsval option" where
  "sample_parse =
     map_of
       [(reply_b_ok,
           JObj [(''uri'', JStr ''wip://b''), (''parameters'', JArr []), (''text'', JStr ''ok'')]),
        (reply_hello,
           JObj [(''uri'', JStr []), (''parameters'', JArr []), (''text'', JStr ''hello'')]),
        (reply_empty,
           JObj [(''uri'', JStr []), (''parameters'', JArr []), (''text'', JStr [])]),
        (reply_unknown,
           JObj [(''uri'', JStr ''wip://nope''), (''parameters'', JArr []), (''text'', JStr [])])]"

definition assistantEntry :: "string \<Rightarrow> reply_entry" where
  "assistantEntry c = \<lparr>msg_role = ''assistant'', msg_tool = [], msg_result = [], msg_content = c\<rparr>"

definition toolEntry :: reply_entry where
  "toolEntry =
     \<lparr>msg_role = ''tool'', msg_tool = ''get_stock'', msg_result = ''in stock'', msg_content = []\<rparr>"

definition toolMessage :: ChatMessage where
  "toolMessage = \<lparr>role = Tool, content = ToolOutputEl ''get_stock'' (JStr ''in stock'')\<rparr>"

text \<open>The state after widget A was opened from the picker.\<close>

definition state_a :: home_state where
  "state_a =
     \<lparr>messages = [widgetMessage (JStr ''wip://a'') JUndefined], input = [], loading = False,
      sessionId = ''default'', openWidgetUri = JStr ''wip://a''\<rparr>"

definition px1 :: wparams where
  "px1 = \<lparr>name = ''x'', pvalue = JNum 1\<rparr>"

definition px2 :: wparams where
  "px2 = \<lparr>name = ''x'', pvalue = JNum 2\<rparr>"

definition py5 :: wparams where
  "py5 = \<lparr>name = ''y'', pvalue = JNum 5\<rparr>"

text \<open>
  A turn while widget C is open (its \<open>getWidgetContext\<close> throws), and the outcomes of
  a turn whose context-injection request is rejected and whose chat call succeeds. The
  string conversion is not exercised: the pointer is a string.
\<close>

definition toStr_any :: "jsval \<Rightarrow> string" where
  "toStr_any v = ''[object Object]''"

definition state_c :: home_state where
  "state_c =
     \<lparr>messages = [widgetMessage (JStr ''wip://c'') JUndefined], input = '' show it '',
      loading = False, sessionId = ''s1'', openWidgetUri = JStr ''wip://c''\<rparr>"

definition env_rejected :: turn_env where
  "env_rejected =
     \<lparr>inject_fetch = Rejected,
      chat_fetch = ChatResponse True (Some (EntryArray [assistantEntry plain_text]))\<rparr>"

section \<open>Parameter normalisation\<close>

lemma fold_upd_apply:
  "fold (\<lambda>(k, v) obj. obj(k \<mapsto> v)) es m = m ++ map_of (rev es)"
  by (induction es arbitrary: m) (auto simp: map_add_def fun_eq_iff split: option.splits)

lemma fromEntries_map_of: "fromEntries es = map_of (rev es)"
  by (simp add: fromEntries_def fold_upd_apply)

lemma normalize_params_snoc:
  "normalize_params (ps @ [p]) = (normalize_params ps)(name p \<mapsto> pvalue p)"
  by (simp add: normalize_params_def fromEntries_def)

lemma normalize_params_Nil: "normalize_params [] = Map.empty"
  by (simp add: normalize_params_def fromEntries_def)

lemma dom_normalize_params: "dom (normalize_params ps) = name ` set ps"
  by (simp add: normalize_params_def fromEntries_map_of dom_map_of_conv_image_fst image_image)

lemma normalize_params_last:
  "normalize_params ps n =
     (if filter (\<lambda>p. name p = n) ps = [] then None
      else Some (pvalue (last (filter (\<lambda>p. name p = n) ps))))"
proof (induction ps rule: rev_induct)
  case Nil
  show ?case by (simp add: normalize_params_Nil)
next
  case (snoc p ps)
  show ?case
  proof (cases "name p = n")
    case True
    then show ?thesis
      by (simp add: normalize_params_snoc)
  next
    case False
    then show ?thesis
      using snoc.IH by (simp add: normalize_params_snoc)
  qed
qed

lemma normalize_params_functional:
  assumes "\<forall>p \<in> set ps. \<forall>q \<in> set ps. name p = name q \<longrightarrow> pvalue p = pvalue q"
  shows "normalize_params ps n = Some v \<longleftrightarrow> (\<exists>p \<in> set ps. name p = n \<and> pvalue p = v)"
proof (cases "filter (\<lambda>p. name p = n) ps = []")
  case True
  then show ?thesis by (auto simp: normalize_params_last filter_empty_conv)
next
  case False
  let ?l = "last (filter (\<lambda>p. name p = n) ps)"
  have "?l \<in> set (filter (\<lambda>p. name p = n) ps)" using False last_in_set by blast
  then have l: "?l \<in> set ps" "name ?l = n" by auto
  show ?thesis
  proof
    assume "normalize_params ps n = Some v"
    then have "pvalue ?l = v" using False by (simp add: normalize_params_last)
    then show "\<exists>p \<in> set ps. name p = n \<and> pvalue p = v" using l by blast
  next
    assume "\<exists>p \<in> set ps. name p = n \<and> pvalue p = v"
    then obtain p where "p \<in> set ps" "name p = n" "pvalue p = v" by blast
    then have "pvalue ?l = v" using assms l by metis
    then show "normalize_params ps n = Some v" using False by (simp add: normalize_params_last)
  qed
qed

subsection \<open>Duplicate names: the last occurrence wins\<close>

text \<open>
  Claim C3. For every parameter list, duplicates included, the renderer's normalisation
  of the ordered \<open>{name, value}\<close> list has exactly one entry per distinct name (its
  keys are the names of the list, and it has as many entries as the list has distinct
  names), and the value kept for a name is the value of the last pair of that name.
\<close>

theorem normalization_last_wins:
  "dom (normalize_params ps) = name ` set ps \<and>
   card (dom (normalize_params ps)) = length (remdups (map name ps)) \<and>
   (\<forall>p \<in> set ps.
      normalize_params ps (name p) = Some (pvalue (last (filter (\<lambda>q. name q = name p) ps))))"
proof (intro conjI ballI)
  show "dom (normalize_params ps) = name ` set ps"
    by (rule dom_normalize_params)
  show "card (dom (normalize_params ps)) = length (remdups (map name ps))"
    by (simp add: dom_normalize_params length_remdups_card_conv)
next
  fix p assume "p \<in> set ps"
  then have "filter (\<lambda>q. name q = name p) ps \<noteq> []"
    by (auto simp: filter_empty_conv)
  then show "normalize_params ps (name p) = Some (pvalue (last (filter (\<lambda>q. name q = name p) ps)))"
    by (simp add: normalize_params_last)
qed

text \<open>
  The list \<open>[x = 1, y = 5, x = 2]\<close>: the renderer passes the mapping with the two keys
  \<open>x\<close> and \<open>y\<close>, where \<open>x\<close> is 2.
\<close>

theorem normalization_last_wins_witness:
  "paramObj (Some [px1, py5, px2]) = Some (normalize_params [px1, py5, px2]) \<and>
   dom (normalize_params [px1, py5, px2]) = {''x'', ''y''} \<and>
   card (dom (normalize_params [px1, py5, px2])) = 2 \<and>
   normalize_params [px1, py5, px2] ''x'' = Some (JNum 2) \<and>
   normalize_params [px1, py5, px2] ''y'' = Some (JNum 5)"
  using normalization_last_wins [of "[px1, py5, px2]"]
  by (simp add: paramObj_def px1_def px2_def py5_def insert_commute)

subsection \<open>Losslessness and order\<close>

text \<open>
  Claim C8, as stated, fails on a list with a duplicated name: \<open>[x = 1, x = 2]\<close> and its
  permutation \<open>[x = 2, x = 1]\<close> are normalised to different mappings, and the pair
  \<open>x = 1\<close> of the first list is lost.
\<close>

theorem normalization_order_counterexample:
  "mset [px2, px1] = mset [px1, px2] \<and>
   normalize_params [px1, px2] ''x'' = Some (JNum 2) \<and>
   normalize_params [px2, px1] ''x'' = Some (JNum 1) \<and>
   normalize_params [px1, px2] \<noteq> normalize_params [px2, px1] \<and>
   normalize_params [px1, px2] (name px1) \<noteq> Some (pvalue px1)"
proof -
  have a: "normalize_params [px1, px2] ''x'' = Some (JNum 2)"
    by (simp add: normalize_params_last px1_def px2_def)
  have b: "normalize_params [px2, px1] ''x'' = Some (JNum 1)"
    by (simp add: normalize_params_last px1_def px2_def)
  have c: "normalize_params [px1, px2] \<noteq> normalize_params [px2, px1]"
  proof
    assume "normalize_params [px1, px2] = normalize_params [px2, px1]"
    then have "normalize_params [px1, px2] ''x'' = normalize_params [px2, px1] ''x''" by simp
    then show False using a b by simp
  qed
  show ?thesis using a b c by (simp add: px1_def)
qed

text \<open>
  Claim C8, amended. For every parameter list in which no name occurs with two
  different values, the normalisation is lossless (every pair of the list is read back
  from the mapping) and order-independent (every permutation of the list yields the
  same mapping).
\<close>

theorem normalization_lossless_order_independent:
  assumes "\<forall>p \<in> set ps. \<forall>q \<in> set ps. name p = name q \<longrightarrow> pvalue p = pvalue q"
  shows "(\<forall>p \<in> set ps. normalize_params ps (name p) = Some (pvalue p)) \<and>
         (\<forall>qs. mset qs = mset ps \<longrightarrow> normalize_params qs = normalize_params ps)"
proof (intro conjI ballI allI impI)
  fix p assume "p \<in> set ps"
  then show "normalize_params ps (name p) = Some (pvalue p)"
    using normalize_params_functional [OF assms] by blast
next
  fix qs assume "mset qs = mset ps"
  then have eq: "set qs = set ps" by (rule mset_eq_setD)
  have fq: "\<forall>p \<in> set qs. \<forall>q \<in> set qs. name p = name q \<longrightarrow> pvalue p = pvalue q"
    unfolding eq by (rule assms)
  show "normalize_params qs = normalize_params ps"
  proof
    fix n
    have same: "\<And>v. (normalize_params qs n = Some v) = (normalize_params ps n = Some v)"
      by (simp only: normalize_params_functional [OF assms]
            normalize_params_functional [OF fq] eq)
    show "normalize_params qs n = normalize_params ps n"
    proof (cases "normalize_params ps n")
      case None
      have "normalize_params qs n = None"
      proof (rule ccontr)
        assume "normalize_params qs n \<noteq> None"
        then obtain v where "normalize_params qs n = Some v" by blast
        then have "normalize_params ps n = Some v" using same by blast
        then show False using None by simp
      qed
      then show ?thesis using None by simp
    next
      case (Some v)
      then have "normalize_params qs n = Some v" using same by blast
      then show ?thesis using Some by simp
    qed
  qed
qed

text \<open>The list \<open>[x = 1, y = 5]\<close> and its permutation \<open>[y = 5, x = 1]\<close>.\<close>

theorem normalization_lossless_order_independent_witness:
  "normalize_params [px1, py5] (name px1) = Some (pvalue px1) \<and>
   normalize_params [px1, py5] (name py5) = Some (pvalue py5) \<and>
   normalize_params [py5, px1] = normalize_params [px1, py5]"
proof -
  have h: "\<forall>p \<in> set [px1, py5]. \<forall>q \<in> set [px1, py5]. name p = name q \<longrightarrow> pvalue p = pvalue q"
    by (simp add: px1_def py5_def)
  have m: "mset [py5, px1] = mset [px1, py5]" by simp
  note t = normalization_lossless_order_independent [OF h]
  have "normalize_params [py5, px1] = normalize_params [px1, py5]"
    using t m by blast
  moreover have "px1 \<in> set [px1, py5]" "py5 \<in> set [px1, py5]"
    by simp_all
  then have "normalize_params [px1, py5] (name px1) = Some (pvalue px1)"
    "normalize_params [px1, py5] (name py5) = Some (pvalue py5)"
    using t by blast+
  ultimately show ?thesis by simp
qed

section \<open>The renderer's lifecycle\<close>

lemma dep_uri_runEffect: "dep_uri (runEffect registry uri r) = dep_uri r"
  by (simp add: runEffect_def split: resolved.splits)

lemma params_runEffect: "params (runEffect registry uri r) = params r"
  by (simp add: runEffect_def split: resolved.splits)

lemma initCalls_runEffect:
  "initCalls (runEffect registry uri r) =
     initCalls r @ (if has_init registry uri then [(uri, params r)] else [])"
  by (simp add: runEffect_def has_init_def split: resolved.splits)

lemma dep_uri_rerender: "dep_uri (rerender registry uri parameters r) = uri"
  by (simp add: rerender_def dep_uri_runEffect)

lemma params_rerender: "params (rerender registry uri parameters r) = params r"
  by (simp add: rerender_def params_runEffect)

lemma initCalls_rerender:
  "initCalls (rerender registry uri parameters r) =
     initCalls r @ (if uri \<noteq> dep_uri r \<and> has_init registry uri then [(uri, params r)] else [])"
  by (simp add: rerender_def initCalls_runEffect)

lemma dep_uri_setParams: "dep_uri (setParams registry newParams r) = dep_uri r"
  by (simp add: setParams_def dep_uri_rerender)

lemma params_setParams: "params (setParams registry newParams r) = newParams"
  by (simp add: setParams_def params_rerender)

lemma initCalls_setParams: "initCalls (setParams registry newParams r) = initCalls r"
  by (simp add: setParams_def initCalls_rerender)

lemma remdups_adj_hd_tl: "remdups_adj (x # xs) = x # tl (remdups_adj (x # xs))"
  by (induction xs) auto

lemma initCalls_renderer_run:
  "map fst (initCalls (renderer_run registry r evs)) =
     map fst (initCalls r) @
       filter (has_init registry) (tl (remdups_adj (dep_uri r # shown_uris evs)))"
proof (induction evs arbitrary: r)
  case Nil
  show ?case by (simp add: renderer_run_def)
next
  case (Cons ev evs)
  show ?case
  proof (cases ev)
    case (Props uri parameters)
    have step: "renderer_run registry r (ev # evs) =
        renderer_run registry (rerender registry uri parameters r) evs"
      by (simp add: renderer_run_def Props)
    have sh: "shown_uris (ev # evs) = uri # shown_uris evs"
      by (simp add: Props)
    note IH = Cons.IH [of "rerender registry uri parameters r"]
    show ?thesis
    proof (cases "uri = dep_uri r")
      case True
      then show ?thesis
        unfolding step sh IH by (simp add: dep_uri_rerender initCalls_rerender)
    next
      case False
      define rest where "rest = tl (remdups_adj (uri # shown_uris evs))"
      have r: "remdups_adj (uri # shown_uris evs) = uri # rest"
        unfolding rest_def by (rule remdups_adj_hd_tl)
      have "remdups_adj (dep_uri r # uri # shown_uris evs) = dep_uri r # uri # rest"
        using False r by simp
      then show ?thesis
        unfolding step sh IH using False
        by (simp add: dep_uri_rerender initCalls_rerender r)
    qed
  next
    case (SetParams newParams)
    have step: "renderer_run registry r (ev # evs) =
        renderer_run registry (setParams registry newParams r) evs"
      by (simp add: renderer_run_def SetParams)
    have sh: "shown_uris (ev # evs) = shown_uris evs"
      by (simp add: SetParams)
    show ?thesis
      unfolding step sh Cons.IH [of "setParams registry newParams r"]
      by (simp add: dep_uri_setParams initCalls_setParams)
  qed
qed

lemma initCalls_SetParams_run:
  "initCalls (renderer_run registry r (map SetParams qs)) = initCalls r"
proof (induction qs arbitrary: r)
  case Nil
  show ?case by (simp add: renderer_run_def)
next
  case (Cons q qs)
  have "renderer_run registry r (map SetParams (q # qs)) =
      renderer_run registry (setParams registry q r) (map SetParams qs)"
    by (simp add: renderer_run_def)
  then show ?case
    using Cons.IH [of "setParams registry q r"] by (simp add: initCalls_setParams)
qed

lemma getWidget_sample_a: "getWidget sample_registry ''wip://a'' = Component widgetA"
  by (simp add: getWidget_def sample_registry_def registerWidgets_def)

lemma getWidget_sample_b: "getWidget sample_registry ''wip://b'' = Component widgetB"
  by (simp add: getWidget_def sample_registry_def registerWidgets_def)

lemma has_init_sample: "has_init sample_registry ''wip://a''" "\<not> has_init sample_registry ''wip://b''"
  by (simp_all add: has_init_def getWidget_sample_a getWidget_sample_b widgetA_def widgetB_def)

subsection \<open>initWidget and identifier changes\<close>

text \<open>
  Claim C4. For a renderer that is mounted and then rendered again and again, with
  \<open>paramSetter\<close> calls in between, \<open>initWidget\<close> is invoked once at every change of the
  identifier (the first render included) whose widget defines the hook, and at no other
  time: the identifiers of the calls are the identifiers shown, adjacent repetitions
  dropped, that have the hook. Any number of \<open>paramSetter\<close> calls after the mount adds
  no call, and the mount itself makes one call or none. (The renders follow React's
  commit semantics: an effect with dependencies \<open>[uri]\<close> runs after the first render
  and after each render in which \<open>uri\<close> changed.)
\<close>

theorem initWidget_once_per_identifier_change:
  "map fst (initCalls (renderer_run registry (mount registry uri ps) evs)) =
     filter (has_init registry) (remdups_adj (uri # shown_uris evs)) \<and>
   initCalls (renderer_run registry (mount registry uri ps) (map SetParams qs)) =
     initCalls (mount registry uri ps) \<and>
   length (initCalls (mount registry uri ps)) = (if has_init registry uri then 1 else 0)"
proof (intro conjI)
  have d: "dep_uri (mount registry uri ps) = uri"
    by (simp add: mount_def dep_uri_runEffect)
  have i: "map fst (initCalls (mount registry uri ps)) = (if has_init registry uri then [uri] else [])"
    by (simp add: mount_def initCalls_runEffect)
  define rest where "rest = tl (remdups_adj (uri # shown_uris evs))"
  have r: "remdups_adj (uri # shown_uris evs) = uri # rest"
    unfolding rest_def by (rule remdups_adj_hd_tl)
  show "map fst (initCalls (renderer_run registry (mount registry uri ps) evs)) =
     filter (has_init registry) (remdups_adj (uri # shown_uris evs))"
    unfolding initCalls_renderer_run d i by (simp add: r)
  show "initCalls (renderer_run registry (mount registry uri ps) (map SetParams qs)) =
     initCalls (mount registry uri ps)"
    by (rule initCalls_SetParams_run)
  show "length (initCalls (mount registry uri ps)) = (if has_init registry uri then 1 else 0)"
    by (simp add: mount_def initCalls_runEffect)
qed

text \<open>
  Widget A (with the hook) is mounted, its parameters are replaced twice, it is shown
  again, then widget B (without the hook), then A again: two calls, both for A.
\<close>

theorem initWidget_once_per_identifier_change_witness:
  "map fst (initCalls (renderer_run sample_registry (mount sample_registry ''wip://a'' (Some [px1]))
      [SetParams (Some [''x'' \<mapsto> JNum 2]), Props ''wip://a'' None, SetParams None,
       Props ''wip://b'' None, Props ''wip://a'' None])) = [''wip://a'', ''wip://a'']"
  using initWidget_once_per_identifier_change [of sample_registry "''wip://a''" "Some [px1]"
      "[SetParams (Some [''x'' \<mapsto> JNum 2]), Props ''wip://a'' None, SetParams None,
        Props ''wip://b'' None, Props ''wip://a'' None]"]
  by (simp add: has_init_sample)

subsection \<open>An absent parameter list\<close>

text \<open>
  Claim C9, as stated, fails: with no parameter list the renderer computes
  \<open>undefined\<close>, not an empty mapping, and that is what \<open>initWidget\<close> and the widget
  instance receive. Widget A mounted without parameters:
\<close>

theorem absent_parameters_counterexample:
  "paramObj None \<noteq> Some Map.empty \<and>
   initCalls (mount sample_registry ''wip://a'' None) = [(''wip://a'', None)] \<and>
   initCalls (mount sample_registry ''wip://a'' None) \<noteq> [(''wip://a'', Some Map.empty)] \<and>
   render sample_registry ''wip://a'' (mount sample_registry ''wip://a'' None) =
     WidgetElement (Component widgetA) None \<and>
   render sample_registry ''wip://a'' (mount sample_registry ''wip://a'' None) \<noteq>
     WidgetElement (Component widgetA) (Some Map.empty)"
  by (simp add: paramObj_def mount_def initCalls_runEffect has_init_sample render_def
      getWidget_sample_a params_runEffect)

text \<open>
  Claim C9, amended. Whenever the renderer is mounted with no parameter list, its
  parameter state is \<open>undefined\<close> (no mapping at all), and that is what it passes to the
  widget, both as the \<open>parameters\<close> argument of \<open>initWidget\<close> (when the widget has the
  hook) and as the \<open>parameters\<close> prop of the rendered widget instance.
\<close>

theorem absent_parameters_undefined:
  "params (mount registry uri None) = None \<and>
   (has_init registry uri \<longrightarrow> initCalls (mount registry uri None) = [(uri, None)]) \<and>
   (getWidget registry uri \<noteq> Undefined \<longrightarrow>
      render registry uri (mount registry uri None) = WidgetElement (getWidget registry uri) None)"
  by (simp add: paramObj_def mount_def initCalls_runEffect render_def params_runEffect
      split: resolved.splits)

text \<open>Widget A of the sample registry, mounted without parameters.\<close>

theorem absent_parameters_undefined_witness:
  "params (mount sample_registry ''wip://a'' None) = None \<and>
   has_init sample_registry ''wip://a'' \<and>
   initCalls (mount sample_registry ''wip://a'' None) = [(''wip://a'', None)] \<and>
   getWidget sample_registry ''wip://a'' \<noteq> Undefined \<and>
   render sample_registry ''wip://a'' (mount sample_registry ''wip://a'' None) =
     WidgetElement (Component widgetA) None"
  using absent_parameters_undefined [of sample_registry "''wip://a''"]
  by (simp add: has_init_sample getWidget_sample_a)

subsection \<open>Unknown identifiers\<close>

text \<open>
  An identifier that is neither registered nor the name of a member of
  \<open>Object.prototype\<close> resolves to \<open>undefined\<close> and renders as the fallback.
\<close>

lemma getWidget_unregistered:
  "registry wid = None \<Longrightarrow> wid \<notin> set objectPrototypeKeys \<Longrightarrow>
     getWidget registry wid = Undefined \<and> render registry wid r = UnknownWidget wid"
  by (simp add: getWidget_def render_def)

text \<open>
  Claim C5 says that every identifier that is not in the registry resolves to
  \<open>undefined\<close> and renders as the "unknown widget" fallback. The registry is an
  ordinary object literal read with \<open>registry[id]\<close>, so the identifier
  \<open>constructor\<close>, which the sample registry does not hold, resolves to the member
  inherited from \<open>Object.prototype\<close>, and the renderer returns an element of that
  member instead of the fallback.
\<close>

theorem getWidget_inherited_member:
  "sample_registry ''constructor'' = None \<and>
   getWidget sample_registry ''constructor'' = Inherited ''constructor'' \<and>
   render sample_registry ''constructor'' (mount sample_registry ''constructor'' None) =
     WidgetElement (Inherited ''constructor'') None"
  by (simp add: getWidget_def render_def sample_registry_def registerWidgets_def
      objectPrototypeKeys_def mount_def params_runEffect paramObj_def)

section \<open>Applying the reply\<close>

lemma entry_messages_decoded:
  assumes "msg_role msg = ''assistant''" and "msg_content msg \<noteq> []"
    and "parse (msg_content msg) = Some parsed"
  shows "entry_messages parse msg ptr =
     (if truthy (decoded_field parsed ''uri'') then
        (widgetMessage (decoded_field parsed ''uri'') (decoded_field parsed ''parameters'') #
           (if truthy (decoded_field parsed ''text'')
            then [assistantMessage (decoded_field parsed ''text'')] else []),
         decoded_field parsed ''uri'')
      else if truthy (decoded_field parsed ''text'') then
        ([assistantMessage (decoded_field parsed ''text'')], JNull)
      else ([assistantMessage (JStr (msg_content msg))], JNull))"
proof (cases "getProp parsed ''uri''")
  case None
  then have "parsed = JUndefined \<or> parsed = JNull"
    by (cases parsed) simp_all
  then have "getProp parsed ''text'' = None" by auto
  then show ?thesis
    using assms None by (simp add: entry_messages_def assistant_try_def decoded_field_def)
next
  case (Some uri)
  then have "parsed \<noteq> JUndefined" "parsed \<noteq> JNull" by auto
  then obtain ps t where f: "getProp parsed ''parameters'' = Some ps" "getProp parsed ''text'' = Some t"
    by (cases parsed) simp_all
  show ?thesis
    using assms Some f by (simp add: entry_messages_def assistant_try_def decoded_field_def)
qed

lemma sample_parse_b: "sample_parse reply_b_ok =
    Some (JObj [(''uri'', JStr ''wip://b''), (''parameters'', JArr []), (''text'', JStr ''ok'')])"
  by (simp add: sample_parse_def reply_b_ok_def)

lemma sample_parse_hello: "sample_parse reply_hello =
    Some (JObj [(''uri'', JStr []), (''parameters'', JArr []), (''text'', JStr ''hello'')])"
  by (simp add: sample_parse_def reply_b_ok_def reply_hello_def)

lemma sample_parse_empty: "sample_parse reply_empty =
    Some (JObj [(''uri'', JStr []), (''parameters'', JArr []), (''text'', JStr [])])"
  by (simp add: sample_parse_def reply_b_ok_def reply_hello_def reply_empty_def)


lemma sample_parse_plain:
  "sample_parse plain_text = None" "sample_parse [] = None" "sample_parse ''in stock'' = None"
  by (simp_all add: sample_parse_def reply_b_ok_def reply_hello_def reply_empty_def
      reply_unknown_def plain_text_def)

text \<open>
  A reply is applied entry by entry: what an entry at any position does is what it does
  as a reply of its own, to the state the entries before it left.
\<close>

lemma flatMap_entries_append:
  "flatMap_entries parse (a @ b) ptr =
     (case flatMap_entries parse a ptr of
        (ms, p) \<Rightarrow> (case flatMap_entries parse b p of (ms', p') \<Rightarrow> (ms @ ms', p')))"
  by (induction a arbitrary: ptr) (auto split: prod.splits)

lemma applyData_append:
  "applyData parse (EntryArray (a @ b)) st =
     applyData parse (EntryArray b) (applyData parse (EntryArray a) st)"
  by (simp add: applyData_def flatMap_entries_append split: prod.splits)

lemma applyData_entry_at:
  "applyData parse (EntryArray (pre @ msg # post)) st =
     applyData parse (EntryArray post)
       (applyData parse (EntryArray [msg]) (applyData parse (EntryArray pre) st))"
proof -
  have "pre @ msg # post = pre @ ([msg] @ post)" by simp
  then show ?thesis by (simp only: applyData_append)
qed

lemma applyData_one:
  "applyData parse (EntryArray [msg]) s =
     (case entry_messages parse msg (openWidgetUri s) of
        (ms, p) \<Rightarrow> s\<lparr>openWidgetUri := p, messages := messages s @ ms\<rparr>)"
  by (simp add: applyData_def split: prod.splits)

lemma applyData_Nil: "applyData parse (EntryArray []) s = s"
  by (simp add: applyData_def)

lemma applyData_toolEntry:
  "applyData sample_parse (EntryArray [toolEntry]) s = s\<lparr>messages := messages s @ [toolMessage]\<rparr>"
  by (simp add: applyData_def entry_messages_def toolEntry_def toolMessage_def sample_parse_plain)

lemma assistantEntry_simps:
  "msg_role (assistantEntry c) = ''assistant''" "msg_content (assistantEntry c) = c"
  by (simp_all add: assistantEntry_def)

lemma sample_contents_nonempty:
  "reply_b_ok \<noteq> []" "reply_hello \<noteq> []" "reply_empty \<noteq> []" "reply_unknown \<noteq> []"
  "plain_text \<noteq> []"
  by (simp_all add: reply_b_ok_def reply_hello_def reply_empty_def reply_unknown_def plain_text_def)

subsection \<open>A content that decodes\<close>

text \<open>
  Claim C2, as stated, fails when the identifier and the text of the decoded reply are
  both empty: the code then does not append the decoded text but falls through to the
  code after the \<open>try\<close> block and appends the raw content. The content
  \<open>{"uri":"","parameters":[],"text":""}\<close> is shown as it came, not as the empty
  decoded text.
\<close>

theorem empty_decoded_text_counterexample:
  "sample_parse (msg_content (assistantEntry reply_empty)) =
     Some (JObj [(''uri'', JStr []), (''parameters'', JArr []), (''text'', JStr [])]) \<and>
   messages (applyData sample_parse (EntryArray [assistantEntry reply_empty]) initial_state) =
     [assistantMessage (JStr reply_empty)] \<and>
   messages (applyData sample_parse (EntryArray [assistantEntry reply_empty]) initial_state) \<noteq>
     [assistantMessage (JStr [])]"
proof -
  have ne: "reply_empty \<noteq> []" by (simp add: reply_empty_def)
  have m: "messages (applyData sample_parse (EntryArray [assistantEntry reply_empty]) initial_state) =
      [assistantMessage (JStr reply_empty)]"
    using ne
    by (simp add: applyData_def entry_messages_def assistant_try_def assistantEntry_def
        sample_parse_empty initial_state_def)
  have d: "assistantMessage (JStr reply_empty) \<noteq> assistantMessage (JStr [])"
    using ne by (simp add: assistantMessage_def)
  have p: "sample_parse (msg_content (assistantEntry reply_empty)) =
      Some (JObj [(''uri'', JStr []), (''parameters'', JArr []), (''text'', JStr [])])"
    by (simp add: assistantEntry_def sample_parse_empty)
  show ?thesis using m d p by simp
qed

text \<open>
  Claim C2, amended. For every backend assistant entry, at any position of the reply,
  whose (non-empty) content decodes: if the decoded \<open>uri\<close> is non-empty (truthy), a
  widget message for it, with the decoded \<open>parameters\<close>, is appended, the open-widget
  pointer is set to it, and the decoded text, when non-empty, is appended as an
  assistant message right after the widget message; if the decoded \<open>uri\<close> is empty
  and the decoded text is non-empty, the pointer is cleared and the text is appended as
  a plain assistant message; if both are empty, the pointer is cleared and the raw
  content is appended as a plain assistant message. The entries before it have been
  applied by then, and the entries after it are applied to the result.
\<close>

theorem decoded_assistant_entry:
  assumes "msg_role msg = ''assistant''" and "msg_content msg \<noteq> []"
    and "parse (msg_content msg) = Some parsed"
  shows "applyData parse (EntryArray (pre @ msg # post)) st =
     applyData parse (EntryArray post)
       (let s = applyData parse (EntryArray pre) st in
        if truthy (decoded_field parsed ''uri'') then
          s\<lparr>openWidgetUri := decoded_field parsed ''uri'',
             messages := messages s @
               widgetMessage (decoded_field parsed ''uri'') (decoded_field parsed ''parameters'') #
                 (if truthy (decoded_field parsed ''text'')
                  then [assistantMessage (decoded_field parsed ''text'')] else [])\<rparr>
        else if truthy (decoded_field parsed ''text'') then
          s\<lparr>openWidgetUri := JNull,
             messages := messages s @ [assistantMessage (decoded_field parsed ''text'')]\<rparr>
        else
          s\<lparr>openWidgetUri := JNull,
             messages := messages s @ [assistantMessage (JStr (msg_content msg))]\<rparr>)"
  using assms
  by (simp add: applyData_entry_at [of parse pre msg post] applyData_one entry_messages_decoded Let_def)

text \<open>
  A tool entry, the reply \<open>{"uri":"wip://b","parameters":[],"text":"ok"}\<close> and the
  reply \<open>{"uri":"","parameters":[],"text":"hello"}\<close> in one array, on the initial
  state; the first of the two replies alone; and
  \<open>{"uri":"","parameters":[],"text":""}\<close> while widget A is open.
\<close>

theorem decoded_assistant_entry_witness:
  "applyData sample_parse
     (EntryArray [toolEntry, assistantEntry reply_b_ok, assistantEntry reply_hello]) initial_state =
     initial_state\<lparr>openWidgetUri := JNull,
        messages := [toolMessage, widgetMessage (JStr ''wip://b'') (JArr []),
          assistantMessage (JStr ''ok''), assistantMessage (JStr ''hello'')]\<rparr> \<and>
   applyData sample_parse (EntryArray [assistantEntry reply_b_ok]) initial_state =
     initial_state\<lparr>openWidgetUri := JStr ''wip://b'',
        messages := [widgetMessage (JStr ''wip://b'') (JArr []), assistantMessage (JStr ''ok'')]\<rparr> \<and>
   applyData sample_parse (EntryArray [assistantEntry reply_empty]) state_a =
     state_a\<lparr>openWidgetUri := JNull,
        messages := messages state_a @ [assistantMessage (JStr reply_empty)]\<rparr>"
proof -
  have b: "applyData sample_parse (EntryArray (pre @ assistantEntry reply_b_ok # post)) st =
      applyData sample_parse (EntryArray post)
        ((applyData sample_parse (EntryArray pre) st)
           \<lparr>openWidgetUri := JStr ''wip://b'',
            messages := messages (applyData sample_parse (EntryArray pre) st) @
              [widgetMessage (JStr ''wip://b'') (JArr []), assistantMessage (JStr ''ok'')]\<rparr>)"
    for pre post st
    using decoded_assistant_entry [of "assistantEntry reply_b_ok" sample_parse _ pre post st]
    by (simp add: assistantEntry_simps sample_contents_nonempty sample_parse_b decoded_field_def Let_def)
  have h: "applyData sample_parse (EntryArray (pre @ assistantEntry reply_hello # post)) st =
      applyData sample_parse (EntryArray post)
        ((applyData sample_parse (EntryArray pre) st)
           \<lparr>openWidgetUri := JNull,
            messages := messages (applyData sample_parse (EntryArray pre) st) @
              [assistantMessage (JStr ''hello'')]\<rparr>)"
    for pre post st
    using decoded_assistant_entry [of "assistantEntry reply_hello" sample_parse _ pre post st]
    by (simp add: assistantEntry_simps sample_contents_nonempty sample_parse_hello decoded_field_def Let_def)
  have e: "applyData sample_parse (EntryArray (pre @ assistantEntry reply_empty # post)) st =
      applyData sample_parse (EntryArray post)
        ((applyData sample_parse (EntryArray pre) st)
           \<lparr>openWidgetUri := JNull,
            messages := messages (applyData sample_parse (EntryArray pre) st) @
              [assistantMessage (JStr reply_empty)]\<rparr>)"
    for pre post st
    using decoded_assistant_entry [of "assistantEntry reply_empty" sample_parse _ pre post st]
    by (simp add: assistantEntry_simps sample_contents_nonempty sample_parse_empty decoded_field_def Let_def)
  have "applyData sample_parse
      (EntryArray [toolEntry, assistantEntry reply_b_ok, assistantEntry reply_hello]) initial_state =
      initial_state\<lparr>openWidgetUri := JNull,
        messages := [toolMessage, widgetMessage (JStr ''wip://b'') (JArr []),
          assistantMessage (JStr ''ok''), assistantMessage (JStr ''hello'')]\<rparr>"
    using b [of "[toolEntry]" "[assistantEntry reply_hello]" initial_state]
      h [of "[]" "[]"]
    by (simp add: applyData_Nil applyData_toolEntry initial_state_def)
  moreover have "applyData sample_parse (EntryArray [assistantEntry reply_b_ok]) initial_state =
      initial_state\<lparr>openWidgetUri := JStr ''wip://b'',
        messages := [widgetMessage (JStr ''wip://b'') (JArr []), assistantMessage (JStr ''ok'')]\<rparr>"
    using b [of "[]" "[]" initial_state] by (simp add: applyData_Nil initial_state_def)
  moreover have "applyData sample_parse (EntryArray [assistantEntry reply_empty]) state_a =
      state_a\<lparr>openWidgetUri := JNull,
        messages := messages state_a @ [assistantMessage (JStr reply_empty)]\<rparr>"
    using e [of "[]" "[]" state_a] by (simp add: applyData_Nil)
  ultimately show ?thesis by simp
qed

subsection \<open>A content that does not decode\<close>

text \<open>
  Claim C6, as stated, fails on an assistant entry whose content is empty: the empty
  string is no JSON text, but the guard \<open>msg.content\<close> skips the entry before any
  decoding, so no message is appended and the pointer keeps its value.
\<close>

theorem empty_content_counterexample:
  "msg_role (assistantEntry []) = ''assistant'' \<and>
   sample_parse (msg_content (assistantEntry [])) = None \<and>
   applyData sample_parse (EntryArray [assistantEntry []]) state_a = state_a \<and>
   messages state_a = [widgetMessage (JStr ''wip://a'') JUndefined] \<and>
   openWidgetUri state_a = JStr ''wip://a''"
  by (simp add: sample_parse_plain assistantEntry_def applyData_def entry_messages_def state_a_def)

text \<open>
  Claim C6, amended. For every backend assistant entry, at any position of the reply:
  if its content is non-empty and fails to decode, exactly one plain assistant message
  holding the raw content is appended and the open-widget pointer is cleared (the
  decode is attempted once and nothing is raised: the function is total); if its
  content is empty or absent, the entry is skipped: no message is appended and the
  pointer is left as it is.
\<close>

theorem undecodable_content_shown_raw:
  assumes "msg_role msg = ''assistant''"
  shows "(msg_content msg \<noteq> [] \<and> parse (msg_content msg) = None \<longrightarrow>
            applyData parse (EntryArray (pre @ msg # post)) st =
              applyData parse (EntryArray post)
                ((applyData parse (EntryArray pre) st)
                   \<lparr>openWidgetUri := JNull,
                    messages := messages (applyData parse (EntryArray pre) st) @
                      [assistantMessage (JStr (msg_content msg))]\<rparr>)) \<and>
         (msg_content msg = [] \<longrightarrow>
            applyData parse (EntryArray (pre @ msg # post)) st =
              applyData parse (EntryArray post) (applyData parse (EntryArray pre) st))"
  using assms
  by (simp add: applyData_entry_at [of parse pre msg post] applyData_one entry_messages_def
      assistant_try_def)

text \<open>
  A plain sentence as content, after a tool entry and after an assistant entry without
  content, while widget A is open; and an assistant entry without content alone.
\<close>

theorem undecodable_content_shown_raw_witness:
  "sample_parse plain_text = None \<and>
   applyData sample_parse (EntryArray [toolEntry, assistantEntry plain_text]) state_a =
     state_a\<lparr>openWidgetUri := JNull,
        messages := messages state_a @ [toolMessage, assistantMessage (JStr plain_text)]\<rparr> \<and>
   applyData sample_parse (EntryArray [assistantEntry [], assistantEntry plain_text]) state_a =
     state_a\<lparr>openWidgetUri := JNull,
        messages := messages state_a @ [assistantMessage (JStr plain_text)]\<rparr> \<and>
   applyData sample_parse (EntryArray [assistantEntry []]) state_a = state_a"
proof -
  note t = undecodable_content_shown_raw [of _ sample_parse]
  have p: "applyData sample_parse (EntryArray (pre @ assistantEntry plain_text # post)) st =
      applyData sample_parse (EntryArray post)
        ((applyData sample_parse (EntryArray pre) st)
           \<lparr>openWidgetUri := JNull,
            messages := messages (applyData sample_parse (EntryArray pre) st) @
              [assistantMessage (JStr plain_text)]\<rparr>)"
    for pre post st
    using t [of "assistantEntry plain_text" pre post st]
    by (simp add: assistantEntry_simps sample_contents_nonempty sample_parse_plain)
  have n: "applyData sample_parse (EntryArray (pre @ assistantEntry [] # post)) st =
      applyData sample_parse (EntryArray post) (applyData sample_parse (EntryArray pre) st)"
    for pre post st
    using t [of "assistantEntry []" pre post st] by (simp add: assistantEntry_simps)
  have "applyData sample_parse (EntryArray [toolEntry, assistantEntry plain_text]) state_a =
      state_a\<lparr>openWidgetUri := JNull,
        messages := messages state_a @ [toolMessage, assistantMessage (JStr plain_text)]\<rparr>"
    using p [of "[toolEntry]" "[]" state_a] by (simp add: applyData_Nil applyData_toolEntry)
  moreover have "applyData sample_parse (EntryArray [assistantEntry [], assistantEntry plain_text]) state_a =
      state_a\<lparr>openWidgetUri := JNull,
        messages := messages state_a @ [assistantMessage (JStr plain_text)]\<rparr>"
    using n [of "[]" "[assistantEntry plain_text]" state_a] p [of "[]" "[]" state_a]
    by (simp add: applyData_Nil)
  moreover have "applyData sample_parse (EntryArray [assistantEntry []]) state_a = state_a"
    using n [of "[]" "[]" state_a] by (simp add: applyData_Nil)
  ultimately show ?thesis by (simp add: sample_parse_plain)
qed

section \<open>Opening a widget from the picker\<close>






section \<open>The turn\<close>

lemma assistant_try_no_error:
  "assistant_try parse c = Returned (ms, p) \<Longrightarrow> filter isError ms = []"
  by (auto simp: assistant_try_def isError_def widgetMessage_def assistantMessage_def
      split: option.splits if_splits)

lemma entry_messages_no_error:
  "entry_messages parse msg ptr = (ms, p) \<Longrightarrow> filter isError ms = []"
  by (auto simp: entry_messages_def isError_def assistantMessage_def
      split: if_splits completion.splits dest: assistant_try_no_error)

lemma flatMap_entries_no_error:
  "flatMap_entries parse entries ptr = (ms, p) \<Longrightarrow> filter isError ms = []"
proof (induction entries arbitrary: ptr ms p)
  case Nil
  then show ?case by simp
next
  case (Cons msg rest)
  obtain ms1 p1 where e: "entry_messages parse msg ptr = (ms1, p1)"
    by (cases "entry_messages parse msg ptr")
  obtain ms2 p2 where r: "flatMap_entries parse rest p1 = (ms2, p2)"
    by (cases "flatMap_entries parse rest p1")
  have "ms = ms1 @ ms2" using Cons.prems e r by simp
  then show ?case
    using entry_messages_no_error [OF e] Cons.IH [OF r] by simp
qed

lemma applyData_no_error:
  "filter isError (messages (applyData parse data st)) = filter isError (messages st)"
proof (cases data)
  case NotArray
  then show ?thesis by (simp add: applyData_def)
next
  case (EntryArray entries)
  obtain ms p where f: "flatMap_entries parse entries (openWidgetUri st) = (ms, p)"
    by (cases "flatMap_entries parse entries (openWidgetUri st)")
  show ?thesis
    using EntryArray f flatMap_entries_no_error [OF f] by (simp add: applyData_def)
qed

lemma chat_try_cases:
  "chat_try parse env st =
     (if chat_ok (chat_fetch env)
      then (case chat_fetch env of
              ChatResponse ok (Some data) \<Rightarrow> Returned (applyData parse data st)
            | _ \<Rightarrow> Thrown)
      else Thrown)"
  by (simp add: chat_try_def split: chat_result.splits option.splits)

lemma sendMessage_state:
  assumes "trim (input st) \<noteq> []" and "\<not> loading st"
  shows "fst (sendMessage trim toStr parse registry env st) =
     (let st1 = st\<lparr>input := [],
            messages := messages st @ [\<lparr>role = User, content = Text (JStr (trim (input st)))\<rparr>],
            loading := True\<rparr>
      in (case chat_try parse env st1 of
            Returned st' \<Rightarrow> st'
          | _ \<Rightarrow> st1\<lparr>messages := messages st1 @ [errorMessage]\<rparr>)\<lparr>loading := False\<rparr>)"
  using assms by (simp add: sendMessage_def Let_def)

lemma sendMessage_requests:
  assumes "trim (input st) \<noteq> []" and "\<not> loading st"
  shows "snd (sendMessage trim toStr parse registry env st) =
     (if truthy (openWidgetUri st) then snd (injection_try toStr registry env st) else []) @
       [ChatRequest (trim (input st)) (sessionId st)]"
  using assms
  by (simp add: sendMessage_def Let_def split: prod.splits completion.splits)

lemma sendMessage_errors:
  assumes "trim (input st) \<noteq> []" and "\<not> loading st"
  shows "length (filter isError (messages (fst (sendMessage trim toStr parse registry env st)))) =
     length (filter isError (messages st)) + (if chat_ok (chat_fetch env) then 0 else 1)"
proof (cases "chat_ok (chat_fetch env)")
  case True
  then obtain data where c: "chat_fetch env = ChatResponse True (Some data)"
    by (cases "chat_fetch env" rule: chat_ok.cases) auto
  show ?thesis
    using True assms by (simp add: sendMessage_state chat_try_def c applyData_no_error isError_def)
next
  case False
  then have "chat_try parse env s = Thrown" for s
    by (simp add: chat_try_cases)
  then show ?thesis
    using False assms by (simp add: sendMessage_state isError_def errorMessage_def)
qed

lemma trim_state_c: "trimASCII (input state_c) = ''show it''"
  by (simp add: state_c_def trimASCII_def isSpace_def)

lemma getWidget_sample_c: "getWidget sample_registry ''wip://c'' = Component widgetC"
  by (simp add: getWidget_def sample_registry_def registerWidgets_def)

lemma injection_state_c:
  "injection_try toStr_any sample_registry env_rejected state_c = (Thrown, [])"
  by (simp add: injection_try_def propertyKey_def state_c_def getWidget_sample_c
      callGetWidgetContext_def widgetC_def)

lemma injection_state_a:
  "injection_try toStr_any sample_registry env_rejected (state_a\<lparr>input := ''next''\<rparr>) =
     (Thrown, [ContextInjection (JObj [(''day'', JNum 3)]) ''default''])"
  by (simp add: injection_try_def propertyKey_def state_a_def getWidget_sample_a
      callGetWidgetContext_def widgetA_def env_rejected_def)

subsection \<open>A failing context injection\<close>

text \<open>
  Claim C7. For every turn (the input is not blank and no turn is in flight) in which
  a widget is open and the context injection fails, because \<open>getWidgetContext\<close> or
  the \<open>fetch\<close> of the injection throws: the failure is caught, the chat request is
  still sent, last, with the trimmed user message and the session id; the resulting
  state is the one the same turn reaches when the injection succeeds, whatever the
  registry; and the number of error messages in the log grows by one exactly when the
  chat call itself fails, and not at all otherwise.
\<close>

theorem injection_failure_does_not_block:
  assumes "trim (input st) \<noteq> []" and "\<not> loading st"
    and "truthy (openWidgetUri st)"
    and "fst (injection_try toStr registry env st) = Thrown"
  shows "snd (sendMessage trim toStr parse registry env st) =
           snd (injection_try toStr registry env st) @
             [ChatRequest (trim (input st)) (sessionId st)] \<and>
         fst (sendMessage trim toStr parse registry env st) =
           fst (sendMessage trim toStr' parse registry' (env\<lparr>inject_fetch := Resolved\<rparr>) st) \<and>
         length (filter isError (messages (fst (sendMessage trim toStr parse registry env st)))) =
           length (filter isError (messages st)) + (if chat_ok (chat_fetch env) then 0 else 1)"
proof (intro conjI)
  show "snd (sendMessage trim toStr parse registry env st) =
      snd (injection_try toStr registry env st) @ [ChatRequest (trim (input st)) (sessionId st)]"
    using assms(1,2,3) by (simp add: sendMessage_requests)
  show "fst (sendMessage trim toStr parse registry env st) =
      fst (sendMessage trim toStr' parse registry' (env\<lparr>inject_fetch := Resolved\<rparr>) st)"
    using assms(1,2) by (simp add: sendMessage_state chat_try_def)
  show "length (filter isError (messages (fst (sendMessage trim toStr parse registry env st)))) =
      length (filter isError (messages st)) + (if chat_ok (chat_fetch env) then 0 else 1)"
    using assms(1,2) by (rule sendMessage_errors)
qed

text \<open>
  Widget C is open and its \<open>getWidgetContext\<close> throws; widget A is open and the
  injection request is rejected. Both turns send the chat request, and the first adds
  no error message.
\<close>

theorem injection_failure_does_not_block_witness:
  "fst (injection_try toStr_any sample_registry env_rejected state_c) = Thrown \<and>
   snd (sendMessage trimASCII toStr_any sample_parse sample_registry env_rejected state_c) =
     [ChatRequest ''show it'' ''s1''] \<and>
   length (filter isError (messages
     (fst (sendMessage trimASCII toStr_any sample_parse sample_registry env_rejected state_c)))) = 0 \<and>
   fst (injection_try toStr_any sample_registry env_rejected (state_a\<lparr>input := ''next''\<rparr>)) = Thrown \<and>
   snd (sendMessage trimASCII toStr_any sample_parse sample_registry env_rejected
          (state_a\<lparr>input := ''next''\<rparr>)) =
     [ContextInjection (JObj [(''day'', JNum 3)]) ''default'', ChatRequest ''next'' ''default'']"
proof -
  have c: "trimASCII (input state_c) \<noteq> []" "\<not> loading state_c" "truthy (openWidgetUri state_c)"
    "sessionId state_c = ''s1''" "filter isError (messages state_c) = []"
    by (simp_all add: trim_state_c) (simp_all add: state_c_def isError_def widgetMessage_def)
  have a: "trimASCII (input (state_a\<lparr>input := ''next''\<rparr>)) = ''next''"
    "\<not> loading (state_a\<lparr>input := ''next''\<rparr>)" "truthy (openWidgetUri (state_a\<lparr>input := ''next''\<rparr>))"
    "sessionId (state_a\<lparr>input := ''next''\<rparr>) = ''default''"
    by (simp_all add: state_a_def trimASCII_def isSpace_def)
  have ok: "chat_ok (chat_fetch env_rejected)"
    by (simp add: env_rejected_def)
  note t1 = injection_failure_does_not_block [of trimASCII state_c toStr_any sample_registry
      env_rejected sample_parse]
  note t2 = injection_failure_does_not_block [of trimASCII "state_a\<lparr>input := ''next''\<rparr>" toStr_any
      sample_registry env_rejected sample_parse]
  show ?thesis
    using t1 t2 c a ok by (simp add: injection_state_c injection_state_a trim_state_c)
qed

section \<open>The open-widget pointer\<close>

lemma most_recent_widget_alt:
  "most_recent_widget msgs =
     (if filter isWidget msgs = [] then JNull
      else props_uri (content (last (filter isWidget msgs))))"
  by (simp add: most_recent_widget_def split: list.splits)

lemma most_recent_widget_append:
  "most_recent_widget (a @ b) =
     (if filter isWidget b = [] then most_recent_widget a else most_recent_widget b)"
  by (simp add: most_recent_widget_alt)

lemma find_rev_last:
  "find P (rev xs) = (if filter P xs = [] then None else Some (last (filter P xs)))"
  by (induction xs rule: rev_induct) simp_all

lemma widgets_wf_append: "widgets_wf (a @ b) = (widgets_wf a \<and> widgets_wf b)"
  by (simp add: widgets_wf_def)

lemma widgets_wf_take_drop:
  "widgets_wf msgs \<Longrightarrow> widgets_wf (take i msgs @ drop j msgs)"
  by (auto simp: widgets_wf_def list_all_iff dest: in_set_takeD in_set_dropD)

lemma restored_pointer:
  assumes "widgets_wf msgs"
  shows "(case find isWidget (rev msgs) of
            Some m \<Rightarrow>
              if isValidElement (content m)
              then (let uri = props_uri (content m) in if isString uri then uri else JNull)
              else JNull
          | None \<Rightarrow> JNull) = most_recent_widget msgs"
proof (cases "filter isWidget msgs = []")
  case True
  then show ?thesis by (simp add: find_rev_last most_recent_widget_alt)
next
  case False
  let ?m = "last (filter isWidget msgs)"
  have "?m \<in> set (filter isWidget msgs)" using False last_in_set by blast
  then have "?m \<in> set msgs" "isWidget ?m" by auto
  then have "isValidElement (content ?m)" "isString (props_uri (content ?m))"
    using assms by (auto simp: widgets_wf_def list_all_iff)
  then show ?thesis using False by (simp add: find_rev_last most_recent_widget_alt)
qed

lemma handleRemoveWidget_inv:
  assumes "widgets_wf (messages st)" and "pointer_ok st"
  shows "widgets_wf (messages (handleRemoveWidget st)) \<and> pointer_ok (handleRemoveWidget st)"
proof (cases "findIndex isWidget (rev (messages st))")
  case None
  then show ?thesis using assms by (simp add: handleRemoveWidget_def)
next
  case (Some i)
  define new where "new = take (length (messages st) - 1 - i) (messages st) @
      drop (length (messages st) - 1 - i + 1) (messages st)"
  have wf: "widgets_wf new"
    unfolding new_def using assms(1) by (rule widgets_wf_take_drop)
  have "handleRemoveWidget st =
      st\<lparr>messages := new,
         openWidgetUri :=
           (case find isWidget (rev new) of
              Some m \<Rightarrow>
                if isValidElement (content m)
                then (let uri = props_uri (content m) in if isString uri then uri else JNull)
                else JNull
            | None \<Rightarrow> JNull)\<rparr>"
    using Some by (simp add: handleRemoveWidget_def new_def Let_def)
  then have "handleRemoveWidget st = st\<lparr>messages := new, openWidgetUri := most_recent_widget new\<rparr>"
    by (simp only: restored_pointer [OF wf])
  then show ?thesis using wf by (simp add: pointer_ok_def)
qed

lemma isWidget_simps:
  "isWidget (widgetMessage u p)" "\<not> isWidget (assistantMessage v)"
  by (simp_all add: isWidget_def widgetMessage_def assistantMessage_def)

lemma handleAddWidget_inv:
  assumes "widgets_wf (messages st)" and "pointer_ok st"
  shows "widgets_wf (messages (handleAddWidget registry uri st)) \<and>
         pointer_ok (handleAddWidget registry uri st)"
proof (cases "getWidget registry uri = Undefined")
  case True
  then show ?thesis using assms by (simp add: handleAddWidget_def)
next
  case False
  then have "handleAddWidget registry uri st =
      st\<lparr>messages := messages st @ [widgetMessage (JStr uri) JUndefined], openWidgetUri := JStr uri\<rparr>"
    by (simp add: handleAddWidget_def split: resolved.splits)
  moreover have "widgets_wf [widgetMessage (JStr uri) JUndefined]"
    by (simp add: widgets_wf_def widgetMessage_def)
  moreover have "most_recent_widget (messages st @ [widgetMessage (JStr uri) JUndefined]) = JStr uri"
    by (simp add: most_recent_widget_alt isWidget_simps) (simp add: widgetMessage_def)
  ultimately show ?thesis using assms(1) by (simp add: pointer_ok_def widgets_wf_append)
qed

lemma entry_messages_tracks:
  assumes "\<not> isAssistantEntry msg \<or> opens_widget parse msg"
    and "entry_messages parse msg ptr = (ms, p)"
  shows "tracks ptr ms p"
proof (cases "msg_role msg = ''tool'' \<and> msg_result msg \<noteq> []")
  case True
  then show ?thesis using assms(2)
    by (auto simp: entry_messages_def tracks_def widgets_wf_def isWidget_def)
next
  case notool: False
  show ?thesis
  proof (cases "isAssistantEntry msg")
    case False
    then show ?thesis using assms(2) notool
      by (auto simp: entry_messages_def tracks_def widgets_wf_def isAssistantEntry_def)
  next
    case True
    then have "opens_widget parse msg" using assms(1) by simp
    then obtain parsed u where p: "parse (msg_content msg) = Some parsed"
      and u: "getProp parsed ''uri'' = Some (JStr u)" "u \<noteq> []"
      by (auto simp: opens_widget_def split: option.splits jsval.splits)
    from u(1) obtain ps t where f: "getProp parsed ''parameters'' = Some ps"
      "getProp parsed ''text'' = Some t"
      by (cases parsed) simp_all
    have "entry_messages parse msg ptr =
        (widgetMessage (JStr u) ps # (if truthy t then [assistantMessage t] else []), JStr u)"
      using True notool p u f
      by (simp add: entry_messages_def assistant_try_def isAssistantEntry_def)
    then have ms: "ms = widgetMessage (JStr u) ps # (if truthy t then [assistantMessage t] else [])"
      and pu: "p = JStr u"
      using assms(2) by simp_all
    have "widgets_wf ms"
      by (simp add: ms widgets_wf_def isWidget_simps) (simp add: widgetMessage_def)
    moreover have "filter isWidget ms = [widgetMessage (JStr u) ps]"
      by (simp add: ms isWidget_simps)
    ultimately show ?thesis
      by (simp add: tracks_def pu most_recent_widget_alt) (simp add: widgetMessage_def)
  qed
qed

lemma tracks_append:
  assumes "tracks ptr ms p" and "tracks p ms' p'"
  shows "tracks ptr (ms @ ms') p'"
  using assms by (simp add: tracks_def widgets_wf_append most_recent_widget_append)

lemma flatMap_entries_tracks:
  assumes "list_all (\<lambda>msg. \<not> isAssistantEntry msg \<or> opens_widget parse msg) entries"
    and "flatMap_entries parse entries ptr = (ms, p)"
  shows "tracks ptr ms p"
  using assms
proof (induction entries arbitrary: ptr ms p)
  case Nil
  then show ?case by (simp add: tracks_def widgets_wf_def)
next
  case (Cons msg rest)
  obtain ms1 p1 where e: "entry_messages parse msg ptr = (ms1, p1)"
    by (cases "entry_messages parse msg ptr")
  obtain ms2 p2 where r: "flatMap_entries parse rest p1 = (ms2, p2)"
    by (cases "flatMap_entries parse rest p1")
  have "ms = ms1 @ ms2" "p = p2"
    using Cons.prems(2) e r by simp_all
  moreover have "tracks ptr ms1 p1"
    using Cons.prems(1) e by (auto intro: entry_messages_tracks)
  moreover have "tracks p1 ms2 p2"
    using Cons.IH [OF _ r] Cons.prems(1) by simp
  ultimately show ?case by (simp add: tracks_append)
qed

lemma applyData_inv:
  assumes "list_all (\<lambda>msg. \<not> isAssistantEntry msg \<or> opens_widget parse msg) entries"
    and "widgets_wf (messages st)" and "pointer_ok st"
  shows "widgets_wf (messages (applyData parse (EntryArray entries) st)) \<and>
         pointer_ok (applyData parse (EntryArray entries) st)"
proof -
  obtain ms p where f: "flatMap_entries parse entries (openWidgetUri st) = (ms, p)"
    by (cases "flatMap_entries parse entries (openWidgetUri st)")
  have t: "tracks (openWidgetUri st) ms p"
    using assms(1) f by (rule flatMap_entries_tracks)
  have "applyData parse (EntryArray entries) st =
      st\<lparr>openWidgetUri := p, messages := messages st @ ms\<rparr>"
    using f by (simp add: applyData_def)
  then show ?thesis
    using t assms(2,3)
    by (simp add: tracks_def pointer_ok_def widgets_wf_append most_recent_widget_append)
qed

lemma log_step_inv:
  assumes "opens_or_removes parse op" and "widgets_wf (messages st)" and "pointer_ok st"
  shows "widgets_wf (messages (log_step parse registry st op)) \<and>
         pointer_ok (log_step parse registry st op)"
proof (cases op)
  case (AddWidget uri)
  then show ?thesis using assms handleAddWidget_inv by simp
next
  case (ApplyReply entries)
  then show ?thesis using assms applyData_inv by simp
next
  case RemoveWidget
  then show ?thesis using assms handleRemoveWidget_inv by simp
qed

lemma log_run_inv:
  assumes "\<forall>op \<in> set ops. opens_or_removes parse op"
    and "widgets_wf (messages st)" and "pointer_ok st"
  shows "widgets_wf (messages (log_run parse registry st ops)) \<and>
         pointer_ok (log_run parse registry st ops)"
  using assms
proof (induction ops arbitrary: st)
  case Nil
  then show ?case by (simp add: log_run_def)
next
  case (Cons op ops)
  have "widgets_wf (messages (log_step parse registry st op)) \<and>
      pointer_ok (log_step parse registry st op)"
    using Cons.prems by (intro log_step_inv) simp_all
  then have "widgets_wf (messages (log_run parse registry (log_step parse registry st op) ops)) \<and>
      pointer_ok (log_run parse registry (log_step parse registry st op) ops)"
    using Cons.IH Cons.prems(1) by simp
  then show ?case by (simp add: log_run_def)
qed

subsection \<open>Opening and removing widgets\<close>

text \<open>
  Claim C1. For every sequence of operations that open a widget (\<open>handleAddWidget\<close>,
  or a reply whose assistant entries each decode to a widget identifier) or remove one
  (\<open>handleRemoveWidget\<close>), applied to the initial state, after each operation
  \<open>openWidgetUri\<close> is the identifier of the most recent widget message still in the log,
  and \<open>null\<close> when the log holds no widget message. (A reply without a widget is not
  one of these operations: it clears the pointer and leaves the widget messages in the
  log.)
\<close>

theorem pointer_names_most_recent_widget:
  assumes "\<forall>op \<in> set ops. opens_or_removes parse op"
  shows "\<forall>k \<le> length ops.
           openWidgetUri (log_run parse registry initial_state (take k ops)) =
             most_recent_widget (messages (log_run parse registry initial_state (take k ops)))"
proof (intro allI impI)
  fix k
  have "\<forall>op \<in> set (take k ops). opens_or_removes parse op"
    using assms by (meson in_set_takeD)
  moreover have "widgets_wf (messages initial_state)" "pointer_ok initial_state"
    by (simp_all add: initial_state_def widgets_wf_def pointer_ok_def most_recent_widget_def)
  ultimately have "pointer_ok (log_run parse registry initial_state (take k ops))"
    using log_run_inv by blast
  then show "openWidgetUri (log_run parse registry initial_state (take k ops)) =
      most_recent_widget (messages (log_run parse registry initial_state (take k ops)))"
    by (simp add: pointer_ok_def)
qed

lemma opens_widget_reply_b: "opens_widget sample_parse (assistantEntry reply_b_ok)"
  by (simp add: opens_widget_def assistantEntry_def sample_parse_b)

lemma sample_run_add: "log_run sample_parse sample_registry initial_state [AddWidget ''wip://a''] = state_a"
  by (simp add: log_run_def handleAddWidget_def getWidget_sample_a initial_state_def state_a_def)

lemma sample_run_reply:
  "log_run sample_parse sample_registry initial_state
     [AddWidget ''wip://a'', ApplyReply [assistantEntry reply_b_ok]] =
   state_a\<lparr>openWidgetUri := JStr ''wip://b'',
      messages := [widgetMessage (JStr ''wip://a'') JUndefined,
        widgetMessage (JStr ''wip://b'') (JArr []), assistantMessage (JStr ''ok'')]\<rparr>"
proof -
  have "reply_b_ok \<noteq> []" by (simp add: reply_b_ok_def)
  then have "applyData sample_parse (EntryArray [assistantEntry reply_b_ok]) state_a =
      state_a\<lparr>openWidgetUri := JStr ''wip://b'',
        messages := messages state_a @
          [widgetMessage (JStr ''wip://b'') (JArr []), assistantMessage (JStr ''ok'')]\<rparr>"
    by (simp add: applyData_def entry_messages_def assistant_try_def assistantEntry_def
        sample_parse_b)
  then show ?thesis
    using sample_run_add by (simp add: log_run_def) (simp add: state_a_def)
qed

lemma sample_run_remove:
  "log_run sample_parse sample_registry initial_state
     [AddWidget ''wip://a'', ApplyReply [assistantEntry reply_b_ok], RemoveWidget] =
   state_a\<lparr>messages := [widgetMessage (JStr ''wip://a'') JUndefined, assistantMessage (JStr ''ok'')]\<rparr>"
proof -
  have "handleRemoveWidget (state_a\<lparr>openWidgetUri := JStr ''wip://b'',
      messages := [widgetMessage (JStr ''wip://a'') JUndefined,
        widgetMessage (JStr ''wip://b'') (JArr []), assistantMessage (JStr ''ok'')]\<rparr>) =
    state_a\<lparr>messages := [widgetMessage (JStr ''wip://a'') JUndefined, assistantMessage (JStr ''ok'')]\<rparr>"
    by (simp add: handleRemoveWidget_def Let_def isWidget_simps)
      (simp add: widgetMessage_def state_a_def)
  then show ?thesis
    using sample_run_reply by (simp add: log_run_def)
qed

text \<open>
  Widget A is opened from the picker, a reply opens widget B, and B is removed: the
  pointer names B after the reply and A again after the removal.
\<close>

theorem pointer_names_most_recent_widget_witness:
  "opens_or_removes sample_parse (AddWidget ''wip://a'') \<and>
   opens_or_removes sample_parse (ApplyReply [assistantEntry reply_b_ok]) \<and>
   opens_or_removes sample_parse RemoveWidget \<and>
   openWidgetUri (log_run sample_parse sample_registry initial_state
     [AddWidget ''wip://a'', ApplyReply [assistantEntry reply_b_ok]]) = JStr ''wip://b'' \<and>
   most_recent_widget (messages (log_run sample_parse sample_registry initial_state
     [AddWidget ''wip://a'', ApplyReply [assistantEntry reply_b_ok]])) = JStr ''wip://b'' \<and>
   openWidgetUri (log_run sample_parse sample_registry initial_state
     [AddWidget ''wip://a'', ApplyReply [assistantEntry reply_b_ok], RemoveWidget]) = JStr ''wip://a'' \<and>
   most_recent_widget (messages (log_run sample_parse sample_registry initial_state
     [AddWidget ''wip://a'', ApplyReply [assistantEntry reply_b_ok], RemoveWidget])) = JStr ''wip://a''"
proof -
  let ?ops = "[AddWidget ''wip://a'', ApplyReply [assistantEntry reply_b_ok], RemoveWidget]"
  have h: "\<forall>op \<in> set ?ops. opens_or_removes sample_parse op"
    by (simp add: opens_widget_reply_b)
  note t = pointer_names_most_recent_widget [OF h, of sample_registry]
  have t2: "openWidgetUri (log_run sample_parse sample_registry initial_state
        [AddWidget ''wip://a'', ApplyReply [assistantEntry reply_b_ok]]) =
      most_recent_widget (messages (log_run sample_parse sample_registry initial_state
        [AddWidget ''wip://a'', ApplyReply [assistantEntry reply_b_ok]]))"
    using t [THEN spec, of 2] by (simp add: numeral_2_eq_2)
  have t3: "openWidgetUri (log_run sample_parse sample_registry initial_state ?ops) =
      most_recent_widget (messages (log_run sample_parse sample_registry initial_state ?ops))"
    using t [THEN spec, of 3] by (simp add: numeral_3_eq_3)
  have p2: "openWidgetUri (log_run sample_parse sample_registry initial_state
      [AddWidget ''wip://a'', ApplyReply [assistantEntry reply_b_ok]]) = JStr ''wip://b''"
    by (simp add: sample_run_reply)
  have p3: "openWidgetUri (log_run sample_parse sample_registry initial_state ?ops) = JStr ''wip://a''"
    by (simp add: sample_run_remove state_a_def)
  show ?thesis
    using h t2 t3 p2 p3 by simp
qed

subsection \<open>Whole turns, and replies without a widget\<close>

text \<open>
  A whole turn keeps the pointer on the most recent widget message as well, when the
  assistant entries of its reply each open a widget: the user message and an error
  message are no widget messages and leave the pointer alone.
\<close>

lemma sendMessage_inv:
  assumes "\<And>entries. chat_fetch env = ChatResponse True (Some (EntryArray entries)) \<Longrightarrow>
      list_all (\<lambda>msg. \<not> isAssistantEntry msg \<or> opens_widget parse msg) entries"
    and "widgets_wf (messages st)" and "pointer_ok st"
  shows "widgets_wf (messages (fst (sendMessage trim toStr parse registry env st))) \<and>
         pointer_ok (fst (sendMessage trim toStr parse registry env st))"
proof (cases "trim (input st) = [] \<or> loading st")
  case True
  then show ?thesis using assms(2,3) by (auto simp: sendMessage_def)
next
  case False
  define st1 where "st1 = st\<lparr>input := [],
      messages := messages st @ [\<lparr>role = User, content = Text (JStr (trim (input st)))\<rparr>],
      loading := True\<rparr>"
  have wf1: "widgets_wf (messages st1)" and p1: "pointer_ok st1"
    using assms(2,3)
    by (simp_all add: st1_def widgets_wf_append pointer_ok_def most_recent_widget_append)
      (simp_all add: widgets_wf_def isWidget_def)
  have s: "fst (sendMessage trim toStr parse registry env st) =
      (case chat_try parse env st1 of
         Returned st' \<Rightarrow> st'
       | _ \<Rightarrow> st1\<lparr>messages := messages st1 @ [errorMessage]\<rparr>)\<lparr>loading := False\<rparr>"
    unfolding st1_def using False by (simp add: sendMessage_state Let_def)
  have err: "widgets_wf (messages (st1\<lparr>messages := messages st1 @ [errorMessage]\<rparr>)) \<and>
      pointer_ok (st1\<lparr>messages := messages st1 @ [errorMessage]\<rparr>)"
    using wf1 p1
    by (simp add: widgets_wf_append pointer_ok_def most_recent_widget_append)
      (simp add: widgets_wf_def isWidget_def errorMessage_def)
  have "widgets_wf (messages st2) \<and> pointer_ok st2"
    if "chat_try parse env st1 = Returned st2" for st2
  proof -
    from that obtain data where c: "chat_fetch env = ChatResponse True (Some data)"
      and st2: "st2 = applyData parse data st1"
      by (auto simp: chat_try_def split: chat_result.splits if_splits option.splits)
    show ?thesis
    proof (cases data)
      case NotArray
      then show ?thesis using st2 wf1 p1 by (simp add: applyData_def)
    next
      case (EntryArray es)
      then have "list_all (\<lambda>msg. \<not> isAssistantEntry msg \<or> opens_widget parse msg) es"
        using assms(1) c by simp
      then show ?thesis
        unfolding st2 EntryArray using wf1 p1 by (rule applyData_inv)
    qed
  qed
  then show ?thesis
    using err unfolding s by (cases "chat_try parse env st1") (simp_all add: pointer_ok_def)
qed

text \<open>
  A reply without a widget is different: \<open>{"uri":"","parameters":[],"text":"hello"}\<close>
  while widget A is open clears the pointer, and the widget message of A stays in the
  log.
\<close>

lemma text_reply_clears_pointer:
  "openWidgetUri (applyData sample_parse (EntryArray [assistantEntry reply_hello]) state_a) = JNull \<and>
   most_recent_widget
     (messages (applyData sample_parse (EntryArray [assistantEntry reply_hello]) state_a)) =
     JStr ''wip://a''"
proof -
  have "reply_hello \<noteq> []" by (simp add: reply_hello_def)
  then have "applyData sample_parse (EntryArray [assistantEntry reply_hello]) state_a =
      state_a\<lparr>openWidgetUri := JNull,
         messages := messages state_a @ [assistantMessage (JStr ''hello'')]\<rparr>"
    by (simp add: applyData_def entry_messages_def assistant_try_def assistantEntry_def
        sample_parse_hello)
  then show ?thesis
    by (simp add: most_recent_widget_append isWidget_simps)
      (simp add: state_a_def most_recent_widget_alt isWidget_simps, simp add: widgetMessage_def)
qed

subsection \<open>An operation that takes effect sets the pointer afresh\<close>

text \<open>
  Whatever the pointer was before: after a widget was opened from the picker, after a
  reply that opened one, and after the removal of a widget message, the pointer names
  the most recent widget message of the log.
\<close>

lemma findIndex_None: "findIndex P xs = None \<longleftrightarrow> filter P xs = []"
  by (induction xs) auto

lemma handleRemoveWidget_establishes:
  assumes "widgets_wf (messages st)" and "filter isWidget (messages st) \<noteq> []"
  shows "pointer_ok (handleRemoveWidget st)"
proof -
  have "filter isWidget (rev (messages st)) \<noteq> []"
    using assms(2) by (simp add: filter_empty_conv)
  then obtain i where i: "findIndex isWidget (rev (messages st)) = Some i"
    using findIndex_None [of isWidget "rev (messages st)"] by fastforce
  define new where "new = take (length (messages st) - 1 - i) (messages st) @
      drop (length (messages st) - 1 - i + 1) (messages st)"
  have wf: "widgets_wf new"
    unfolding new_def using assms(1) by (rule widgets_wf_take_drop)
  have "handleRemoveWidget st =
      st\<lparr>messages := new,
         openWidgetUri :=
           (case find isWidget (rev new) of
              Some m \<Rightarrow>
                if isValidElement (content m)
                then (let uri = props_uri (content m) in if isString uri then uri else JNull)
                else JNull
            | None \<Rightarrow> JNull)\<rparr>"
    using i by (simp add: handleRemoveWidget_def new_def Let_def)
  then have "handleRemoveWidget st = st\<lparr>messages := new, openWidgetUri := most_recent_widget new\<rparr>"
    by (simp only: restored_pointer [OF wf])
  then show ?thesis by (simp add: pointer_ok_def)
qed

lemma handleAddWidget_establishes:
  assumes "getWidget registry uri \<noteq> Undefined"
  shows "pointer_ok (handleAddWidget registry uri st)"
proof -
  have "handleAddWidget registry uri st =
      st\<lparr>messages := messages st @ [widgetMessage (JStr uri) JUndefined], openWidgetUri := JStr uri\<rparr>"
    using assms by (simp add: handleAddWidget_def split: resolved.splits)
  moreover have "most_recent_widget (messages st @ [widgetMessage (JStr uri) JUndefined]) = JStr uri"
    by (simp add: most_recent_widget_alt isWidget_simps) (simp add: widgetMessage_def)
  ultimately show ?thesis by (simp add: pointer_ok_def)
qed

lemma entry_messages_widget:
  assumes "isAssistantEntry msg" and "opens_widget parse msg"
    and "entry_messages parse msg ptr = (ms, p)"
  shows "filter isWidget ms \<noteq> []"
proof -
  obtain parsed u where p: "parse (msg_content msg) = Some parsed"
    and u: "getProp parsed ''uri'' = Some (JStr u)" "u \<noteq> []"
    using assms(2) by (auto simp: opens_widget_def split: option.splits jsval.splits)
  from u(1) obtain ps t where f: "getProp parsed ''parameters'' = Some ps"
    "getProp parsed ''text'' = Some t"
    by (cases parsed) simp_all
  have "entry_messages parse msg ptr =
      (widgetMessage (JStr u) ps # (if truthy t then [assistantMessage t] else []), JStr u)"
    using assms(1) p u f
    by (simp add: entry_messages_def assistant_try_def isAssistantEntry_def)
  then show ?thesis using assms(3) by (auto simp: isWidget_simps)
qed

lemma flatMap_entries_widget:
  assumes "\<exists>msg \<in> set entries. isAssistantEntry msg \<and> opens_widget parse msg"
    and "flatMap_entries parse entries ptr = (ms, p)"
  shows "filter isWidget ms \<noteq> []"
  using assms
proof (induction entries arbitrary: ptr ms p)
  case Nil
  then show ?case by simp
next
  case (Cons msg rest)
  obtain ms1 p1 where e: "entry_messages parse msg ptr = (ms1, p1)"
    by (cases "entry_messages parse msg ptr")
  obtain ms2 p2 where r: "flatMap_entries parse rest p1 = (ms2, p2)"
    by (cases "flatMap_entries parse rest p1")
  have ms: "ms = ms1 @ ms2" using Cons.prems(2) e r by simp
  show ?case
  proof (cases "isAssistantEntry msg \<and> opens_widget parse msg")
    case True
    then have "filter isWidget ms1 \<noteq> []" using e entry_messages_widget by blast
    then show ?thesis by (simp add: ms)
  next
    case False
    then have "\<exists>m \<in> set rest. isAssistantEntry m \<and> opens_widget parse m"
      using Cons.prems(1) by auto
    then have "filter isWidget ms2 \<noteq> []" using Cons.IH r by blast
    then show ?thesis by (simp add: ms)
  qed
qed

lemma applyData_establishes:
  assumes "list_all (\<lambda>msg. \<not> isAssistantEntry msg \<or> opens_widget parse msg) entries"
    and "\<exists>msg \<in> set entries. isAssistantEntry msg"
  shows "pointer_ok (applyData parse (EntryArray entries) st)"
proof -
  obtain ms p where f: "flatMap_entries parse entries (openWidgetUri st) = (ms, p)"
    by (cases "flatMap_entries parse entries (openWidgetUri st)")
  have t: "tracks (openWidgetUri st) ms p"
    using assms(1) f by (rule flatMap_entries_tracks)
  have "\<exists>msg \<in> set entries. isAssistantEntry msg \<and> opens_widget parse msg"
    using assms by (auto simp: list_all_iff)
  then have w: "filter isWidget ms \<noteq> []"
    using f flatMap_entries_widget by blast
  have "applyData parse (EntryArray entries) st =
      st\<lparr>openWidgetUri := p, messages := messages st @ ms\<rparr>"
    using f by (simp add: applyData_def)
  then show ?thesis
    using t w by (simp add: tracks_def pointer_ok_def most_recent_widget_append)
qed

end
